theory Spec2Isabelle
  imports Complex_Main
begin

text \<open>
  A shallow embedding of \<^verbatim>\<open>src/js/project-planner.js\<close> (class \<^verbatim>\<open>ProjectPlanner\<close>).
  JavaScript strings are modelled as \<^typ>\<open>string\<close>: a \<^typ>\<open>char\<close> stands for one
  code unit below 256. Numbers are modelled exactly (\<^typ>\<open>int\<close>, \<^typ>\<open>rat\<close>). The
  program computes in doubles, which give the same values as long as every number that
  occurs is a whole or half-whole number below \<open>2 ^ 52\<close>, or a whole number up to
  \<open>2 ^ 53\<close>; the statements that depend on the values carry this range as a hypothesis
  (\<open>safe_integer\<close>, \<open>exact_duration\<close>).
\<close>

section \<open>Definitions\<close>

subsection \<open>parseDuration\<close>

text \<open>
  The regular expression \<^verbatim>\<open>/(\d+)(?:-(\d+))?\s*(day|week)/i\<close>, as the backtracking
  matcher runs it: every piece lists its ways to match in the order the matcher tries them
  (greedy pieces longest first, the optional group taken before it is skipped,
  \<^verbatim>\<open>day\<close> before \<^verbatim>\<open>week\<close>), and \<^verbatim>\<open>String.prototype.match\<close> returns the first
  success at the leftmost start position.
\<close>

definition is_digit :: "char \<Rightarrow> bool" where
  \<comment> \<open>\<^verbatim>\<open>\d\<close>\<close>
  "is_digit c = (c \<in> set ''0123456789'')"

definition is_space :: "char \<Rightarrow> bool" where
  \<comment> \<open>\<^verbatim>\<open>\s\<close> on code units below 256: TAB, LF, VT, FF, CR, space, NBSP\<close>
  "is_space c = ((of_char c :: nat) \<in> {9, 10, 11, 12, 13, 32, 160})"

definition toLowerCase1 :: "char \<Rightarrow> char" where
  "toLowerCase1 c =
     (case map_of (zip ''ABCDEFGHIJKLMNOPQRSTUVWXYZ'' ''abcdefghijklmnopqrstuvwxyz'') c of
        Some l \<Rightarrow> l | None \<Rightarrow> c)"

definition toLowerCase :: "string \<Rightarrow> string" where
  \<comment> \<open>applied by the program to the matched unit only, which consists of ASCII letters\<close>
  "toLowerCase s = map toLowerCase1 s"

definition literal_i :: "string \<Rightarrow> string \<Rightarrow> string list" where
  \<comment> \<open>a lower-case ASCII literal under the \<^verbatim>\<open>i\<close> flag: the matched text, if any\<close>
  "literal_i p s = (let t = take (length p) s in if toLowerCase t = p then [t] else [])"

fun digit_runs :: "string \<Rightarrow> (string \<times> string) list" where
  \<comment> \<open>\<^verbatim>\<open>\d+\<close>: (matched digits, rest), longest run first\<close>
  "digit_runs [] = []"
| "digit_runs (c # cs) =
     (if is_digit c then map (\<lambda>(d, r). (c # d, r)) (digit_runs cs) @ [([c], cs)] else [])"

fun space_runs :: "string \<Rightarrow> string list" where
  \<comment> \<open>\<^verbatim>\<open>\s*\<close>: the rest after the run, longest run first\<close>
  "space_runs [] = [[]]"
| "space_runs (c # cs) = (if is_space c then space_runs cs else []) @ [c # cs]"

definition opt_bound :: "string \<Rightarrow> (string option \<times> string) list" where
  \<comment> \<open>\<^verbatim>\<open>(?:-(\d+))?\<close>: the group first, then the empty match\<close>
  "opt_bound s =
     (case s of
        c # r \<Rightarrow> if c = CHR ''-'' then map (\<lambda>(d, r'). (Some d, r')) (digit_runs r) else []
      | [] \<Rightarrow> []) @ [(None, s)]"

definition unit_alt :: "string \<Rightarrow> string list" where
  \<comment> \<open>\<^verbatim>\<open>(day|week)\<close>\<close>
  "unit_alt s = literal_i ''day'' s @ literal_i ''week'' s"

definition matches_at :: "string \<Rightarrow> (string \<times> string option \<times> string) list" where
  \<comment> \<open>the captures \<^verbatim>\<open>(match[1], match[2], match[3])\<close> of every match starting at the
      head of the text, in the matcher's order\<close>
  "matches_at s =
     [(d1, d2, u). (d1, r1) \<leftarrow> digit_runs s, (d2, r2) \<leftarrow> opt_bound r1,
                   r3 \<leftarrow> space_runs r2, u \<leftarrow> unit_alt r3]"

fun regex_match :: "string \<Rightarrow> (string \<times> string option \<times> string) option" where
  \<comment> \<open>\<^verbatim>\<open>durationStr.match(...)\<close>; \<open>None\<close> is JavaScript's \<^verbatim>\<open>null\<close>\<close>
  "regex_match [] = (case matches_at [] of m # _ \<Rightarrow> Some m | [] \<Rightarrow> None)"
| "regex_match (c # cs) =
     (case matches_at (c # cs) of m # _ \<Rightarrow> Some m | [] \<Rightarrow> regex_match cs)"

definition parseInt :: "string \<Rightarrow> int" where
  \<comment> \<open>\<^verbatim>\<open>parseInt\<close> on a capture of \<^verbatim>\<open>\d+\<close>: the decimal value. The program gets
      the nearest double: the same number up to \<open>2 ^ 53\<close>, a rounded one or
      \<^verbatim>\<open>Infinity\<close> beyond.\<close>
  "parseInt ds = foldl (\<lambda>n c. 10 * n + (int (of_char c) - 48)) 0 ds"

definition parseDuration :: "string \<Rightarrow> int" where
  \<comment> \<open>in exact arithmetic; the program's doubles give the same result where
      \<open>exact_duration\<close> holds\<close>
  "parseDuration durationStr =
     (case regex_match durationStr of
        Some (m1, m2, m3) \<Rightarrow>
          (let min = parseInt m1;
               max = (case m2 of Some m \<Rightarrow> parseInt m | None \<Rightarrow> min);
               unit = toLowerCase m3;
               days = (if unit = ''week'' then (of_int (min + max) :: rat) / 2 * 7
                       else of_int (min + max) / 2)
           in \<lceil>days\<rceil>)
      | None \<Rightarrow> 2)"

definition bound_sum :: "string \<times> string option \<times> string \<Rightarrow> int" where
  \<comment> \<open>\<^verbatim>\<open>min + max\<close> of a match\<close>
  "bound_sum m = (case m of (m1, m2, u) \<Rightarrow>
      parseInt m1 + (case m2 of Some x \<Rightarrow> parseInt x | None \<Rightarrow> parseInt m1))"

definition safe_integer :: "int \<Rightarrow> bool" where
  \<comment> \<open>\<^verbatim>\<open>Number.isSafeInteger\<close>: doubles hold these integers, and add them, exactly\<close>
  "safe_integer n \<longleftrightarrow> - (2 ^ 53) < n \<and> n < 2 ^ 53"

definition exact_duration :: "string \<Rightarrow> bool" where
  \<comment> \<open>the texts on which the doubles of the program compute \<^const>\<open>parseDuration\<close>
      without rounding: with \<open>7 * (min + max)\<close> a safe integer, both bounds, their sum,
      its half and seven times its half are doubles\<close>
  "exact_duration durationStr =
     (case regex_match durationStr of
        None \<Rightarrow> True
      | Some m \<Rightarrow> safe_integer (7 * bound_sum m))"

subsection \<open>JSON.stringify and JSON.parse\<close>

text \<open>
  The two platform functions behind \<^verbatim>\<open>savePlan\<close> and \<^verbatim>\<open>loadSavedPlan\<close>, after
  ECMA-262 (\<^verbatim>\<open>QuoteJSONString\<close>, \<^verbatim>\<open>SerializeJSONObject\<close>, \<^verbatim>\<open>SerializeJSONArray\<close>) and
  the JSON grammar of ECMA-404. A number keeps its lexeme: the program never computes
  with a parsed number. An escape \<^verbatim>\<open>\uXXXX\<close> can name any code unit, so the strings of a
  parsed value are lists of code units; \<open>units\<close> turns a string of the program into one.
\<close>

type_synonym ustring = "nat list"

definition units :: "string \<Rightarrow> ustring" where
  "units s = map of_char s"

datatype json =
  JNull | JBool bool | JNumber string | JString ustring
  | JArray "json list" | JObject "(ustring \<times> json) list"

datatype 'a parsed =
  Parsed 'a
  | SyntaxError  \<comment> \<open>\<^verbatim>\<open>JSON.parse\<close> throws\<close>

definition hex_digit :: "nat \<Rightarrow> char" where
  "hex_digit n = ''0123456789abcdef'' ! n"

definition escape_char :: "char \<Rightarrow> string" where
  "escape_char c =
     (if c = CHR 0x22 then [CHR 0x5C, CHR 0x22]
      else if c = CHR 0x5C then [CHR 0x5C, CHR 0x5C]
      else if c = CHR 0x08 then [CHR 0x5C, CHR ''b'']
      else if c = CHR 0x0C then [CHR 0x5C, CHR ''f'']
      else if c = CHR 0x0A then [CHR 0x5C, CHR ''n'']
      else if c = CHR 0x0D then [CHR 0x5C, CHR ''r'']
      else if c = CHR 0x09 then [CHR 0x5C, CHR ''t'']
      else if (of_char c :: nat) < 32
        then [CHR 0x5C, CHR ''u'', CHR ''0'', CHR ''0'',
              hex_digit (of_char c div 16), hex_digit (of_char c mod 16)]
      else [c])"

definition quote :: "string \<Rightarrow> string" where
  "quote s = CHR 0x22 # concat (map escape_char s) @ [CHR 0x22]"

fun join :: "string \<Rightarrow> string list \<Rightarrow> string" where
  \<comment> \<open>\<^verbatim>\<open>Array.prototype.join\<close>\<close>
  "join sep [] = []"
| "join sep [x] = x"
| "join sep (x # y # ys) = x @ sep @ join sep (y # ys)"

datatype token =
  TLBracket | TRBracket | TLBrace | TRBrace | TComma | TColon
  | TString ustring | TNumber string | TTrue | TFalse | TNull

definition is_json_ws :: "char \<Rightarrow> bool" where
  "is_json_ws c = (c \<in> {CHR 0x20, CHR 0x09, CHR 0x0A, CHR 0x0D})"

definition hex_val :: "char \<Rightarrow> nat option" where
  "hex_val c = map_of (zip ''0123456789abcdefABCDEF''
     [0, 1, 2, 3, 4, 5, 6, 7, 8, 9, 10, 11, 12, 13, 14, 15, 10, 11, 12, 13, 14, 15]) c"

definition simple_escape :: "char \<Rightarrow> char option" where
  "simple_escape e = map_of
     [(CHR 0x22, CHR 0x22), (CHR 0x5C, CHR 0x5C), (CHR ''/'', CHR ''/''), (CHR ''b'', CHR 0x08),
      (CHR ''f'', CHR 0x0C), (CHR ''n'', CHR 0x0A), (CHR ''r'', CHR 0x0D), (CHR ''t'', CHR 0x09)] e"

definition unicode_escape :: "char \<Rightarrow> char \<Rightarrow> char \<Rightarrow> char \<Rightarrow> nat option" where
  \<comment> \<open>the code unit of four hexadecimal digits\<close>
  "unicode_escape h1 h2 h3 h4 =
     (case (hex_val h1, hex_val h2, hex_val h3, hex_val h4) of
        (Some a, Some b, Some c, Some d) \<Rightarrow> Some (((a * 16 + b) * 16 + c) * 16 + d)
      | _ \<Rightarrow> None)"

fun lex_string :: "ustring \<Rightarrow> string \<Rightarrow> (ustring \<times> string) parsed" where
  \<comment> \<open>the text after an opening quote: the string's value (collected in reverse in the
      first argument) and the text after the closing quote\<close>
  "lex_string acc [] = SyntaxError"
| "lex_string acc (c # cs) =
     (if c = CHR 0x22 then Parsed (rev acc, cs)
      else if c = CHR 0x5C then
        (case cs of
           [] \<Rightarrow> SyntaxError
         | e # r \<Rightarrow>
             if e = CHR ''u'' then
               (case r of
                  h1 # h2 # h3 # h4 # r' \<Rightarrow>
                    (case unicode_escape h1 h2 h3 h4 of
                       Some u \<Rightarrow> lex_string (u # acc) r'
                     | None \<Rightarrow> SyntaxError)
                | _ \<Rightarrow> SyntaxError)
             else
               (case simple_escape e of
                  Some ch \<Rightarrow> lex_string (of_char ch # acc) r
                | None \<Rightarrow> SyntaxError))
      else if (of_char c :: nat) < 32 then SyntaxError
      else lex_string (of_char c # acc) cs)"

definition lex_digits :: "string \<Rightarrow> (string \<times> string) option" where
  \<comment> \<open>one or more digits\<close>
  "lex_digits s = (if takeWhile is_digit s = [] then None
                   else Some (takeWhile is_digit s, dropWhile is_digit s))"

definition lex_number :: "string \<Rightarrow> (string \<times> string) option" where
  \<comment> \<open>\<^verbatim>\<open>-? (0 | [1-9][0-9]*) (. [0-9]+)? ([eE] [+-]? [0-9]+)?\<close>: the lexeme and the rest\<close>
  "lex_number s =
     (let (sign, s1) = (case s of c # r \<Rightarrow> if c = CHR ''-'' then ([c], r) else ([], s)
                                 | [] \<Rightarrow> ([], s));
          int_part = (case s1 of
                        c # r \<Rightarrow> if c = CHR ''0'' then Some ([c], r) else lex_digits s1
                      | [] \<Rightarrow> None)
      in case int_part of
           None \<Rightarrow> None
         | Some (i, s2) \<Rightarrow>
             (let frac_part = (case s2 of
                                 c # r \<Rightarrow> if c = CHR ''.''
                                          then map_option (\<lambda>(d, r'). (c # d, r')) (lex_digits r)
                                          else Some ([], s2)
                               | [] \<Rightarrow> Some ([], s2))
              in case frac_part of
                   None \<Rightarrow> None
                 | Some (f, s3) \<Rightarrow>
                     (let exp_part =
                        (case s3 of
                           c # r \<Rightarrow>
                             if c = CHR ''e'' \<or> c = CHR ''E'' then
                               (case r of
                                  g # r' \<Rightarrow>
                                    if g = CHR ''+'' \<or> g = CHR ''-''
                                    then map_option (\<lambda>(d, r''). (c # g # d, r'')) (lex_digits r')
                                    else map_option (\<lambda>(d, r''). (c # d, r'')) (lex_digits r)
                                | [] \<Rightarrow> None)
                             else Some ([], s3)
                         | [] \<Rightarrow> Some ([], s3))
                      in case exp_part of
                           None \<Rightarrow> None
                         | Some (e, s4) \<Rightarrow> Some (sign @ i @ f @ e, s4))))"

definition lex_word :: "string \<Rightarrow> token \<Rightarrow> string \<Rightarrow> (token \<times> string) parsed" where
  "lex_word w t s = (if take (length w) s = w then Parsed (t, drop (length w) s)
                     else SyntaxError)"

definition next_token :: "string \<Rightarrow> (token \<times> string) parsed" where
  \<comment> \<open>the token at the head of a text that does not start with white space\<close>
  "next_token s =
     (case s of
        [] \<Rightarrow> SyntaxError
      | c # cs \<Rightarrow>
          if c = CHR ''['' then Parsed (TLBracket, cs)
          else if c = CHR '']'' then Parsed (TRBracket, cs)
          else if c = CHR ''{'' then Parsed (TLBrace, cs)
          else if c = CHR ''}'' then Parsed (TRBrace, cs)
          else if c = CHR '','' then Parsed (TComma, cs)
          else if c = CHR '':'' then Parsed (TColon, cs)
          else if c = CHR 0x22 then
            (case lex_string [] cs of
               Parsed (v, r) \<Rightarrow> Parsed (TString v, r)
             | SyntaxError \<Rightarrow> SyntaxError)
          else if c = CHR ''t'' then lex_word ''true'' TTrue s
          else if c = CHR ''f'' then lex_word ''false'' TFalse s
          else if c = CHR ''n'' then lex_word ''null'' TNull s
          else (case lex_number s of
                  Some (n, r) \<Rightarrow> Parsed (TNumber n, r)
                | None \<Rightarrow> SyntaxError))"

lemma lex_string_shorter: "lex_string acc s = Parsed (v, r) \<Longrightarrow> length r < length s"
proof (induction acc s rule: lex_string.induct)
  case (1 acc)
  then show ?case by simp
next
  case (2 acc c cs)
  then show ?case
    by (auto split: if_splits list.splits parsed.splits option.splits) fastforce+
qed

lemma lex_digits_shorter: "lex_digits s = Some (d, r) \<Longrightarrow> length r < length s"
proof -
  assume a: "lex_digits s = Some (d, r)"
  then have "takeWhile is_digit s \<noteq> []" and r: "r = dropWhile is_digit s"
    by (auto simp: lex_digits_def split: if_splits)
  then have "length (takeWhile is_digit s) > 0" by simp
  moreover have "length (takeWhile is_digit s) + length (dropWhile is_digit s) = length s"
    by (metis length_append takeWhile_dropWhile_id)
  ultimately show ?thesis unfolding r by arith
qed

lemma lex_number_shorter: "lex_number s = Some (n, r) \<Longrightarrow> length r < length s"
  unfolding lex_number_def Let_def
  by (auto split: list.splits if_splits option.splits prod.splits
      dest!: lex_digits_shorter)

lemma next_token_shorter: "next_token s = Parsed (t, r) \<Longrightarrow> length r < length s"
  unfolding next_token_def lex_word_def
  by (auto split: list.splits if_splits parsed.splits option.splits
      dest: lex_string_shorter lex_number_shorter)

function tokenize :: "string \<Rightarrow> token list parsed" where
  "tokenize s =
     (case dropWhile is_json_ws s of
        [] \<Rightarrow> Parsed []
      | c # cs \<Rightarrow>
          (case next_token (c # cs) of
             Parsed (t, r) \<Rightarrow> map_parsed ((#) t) (tokenize r)
           | SyntaxError \<Rightarrow> SyntaxError))"
  by pat_completeness auto
termination
proof (relation "measure length", goal_cases)
  case 1
  show ?case by simp
next
  case (2 s c cs x t r)
  then have "length r < length (dropWhile is_json_ws s)"
    using next_token_shorter [of "c # cs" t r] by simp
  moreover have "length (dropWhile is_json_ws s) \<le> length s"
    by (rule length_dropWhile_le)
  ultimately show ?case by simp
qed

declare tokenize.simps [simp del]

text \<open>
  The grammar, as a pushdown automaton over the tokens. A context is an enclosing array or
  object that waits for the value being read; the state says what may come next.
\<close>

datatype frame =
  CArray "json list"                     \<comment> \<open>the elements read so far\<close>
  | CObject "(ustring \<times> json) list" ustring  \<comment> \<open>the members read so far, the current key\<close>

datatype pstate =
  ExpValue                               \<comment> \<open>a value\<close>
  | ArrOpen                              \<comment> \<open>after \<^verbatim>\<open>[\<close>: a value or \<^verbatim>\<open>]\<close>\<close>
  | ArrNext "json list"                  \<comment> \<open>after an element: \<^verbatim>\<open>,\<close> or \<^verbatim>\<open>]\<close>\<close>
  | ObjOpen                              \<comment> \<open>after \<^verbatim>\<open>{\<close>: a key or \<^verbatim>\<open>}\<close>\<close>
  | ObjKey "(ustring \<times> json) list"       \<comment> \<open>after \<^verbatim>\<open>,\<close> in an object: a key\<close>
  | ObjColon "(ustring \<times> json) list" ustring  \<comment> \<open>after a key: \<^verbatim>\<open>:\<close>\<close>
  | ObjNext "(ustring \<times> json) list"      \<comment> \<open>after a member: \<^verbatim>\<open>,\<close> or \<^verbatim>\<open>}\<close>\<close>
  | Finished json                        \<comment> \<open>the whole value has been read\<close>

fun reduce :: "json \<Rightarrow> frame list \<Rightarrow> pstate \<times> frame list" where
  \<comment> \<open>a value is complete: hand it to the innermost context\<close>
  "reduce v [] = (Finished v, [])"
| "reduce v (CArray es # st) = (ArrNext (es @ [v]), st)"
| "reduce v (CObject ms k # st) = (ObjNext (ms @ [(k, v)]), st)"

fun start_value :: "token \<Rightarrow> frame list \<Rightarrow> (pstate \<times> frame list) option" where
  "start_value TLBracket st = Some (ArrOpen, st)"
| "start_value TLBrace st = Some (ObjOpen, st)"
| "start_value (TString s) st = Some (reduce (JString s) st)"
| "start_value (TNumber n) st = Some (reduce (JNumber n) st)"
| "start_value TTrue st = Some (reduce (JBool True) st)"
| "start_value TFalse st = Some (reduce (JBool False) st)"
| "start_value TNull st = Some (reduce JNull st)"
| "start_value _ st = None"

fun pstep :: "token \<Rightarrow> pstate \<times> frame list \<Rightarrow> (pstate \<times> frame list) option" where
  "pstep t (ExpValue, st) = start_value t st"
| "pstep t (ArrOpen, st) =
     (if t = TRBracket then Some (reduce (JArray []) st) else start_value t (CArray [] # st))"
| "pstep t (ArrNext es, st) =
     (if t = TComma then Some (ExpValue, CArray es # st)
      else if t = TRBracket then Some (reduce (JArray es) st)
      else None)"
| "pstep t (ObjOpen, st) =
     (case t of TRBrace \<Rightarrow> Some (reduce (JObject []) st)
      | TString k \<Rightarrow> Some (ObjColon [] k, st)
      | _ \<Rightarrow> None)"
| "pstep t (ObjKey ms, st) =
     (case t of TString k \<Rightarrow> Some (ObjColon ms k, st) | _ \<Rightarrow> None)"
| "pstep t (ObjColon ms k, st) =
     (if t = TColon then Some (ExpValue, CObject ms k # st) else None)"
| "pstep t (ObjNext ms, st) =
     (if t = TComma then Some (ObjKey ms, st)
      else if t = TRBrace then Some (reduce (JObject ms) st)
      else None)"
| "pstep t (Finished v, st) = None"

fun prun :: "token list \<Rightarrow> pstate \<times> frame list \<Rightarrow> (pstate \<times> frame list) option" where
  "prun [] c = Some c"
| "prun (t # ts) c = (case pstep t c of None \<Rightarrow> None | Some c' \<Rightarrow> prun ts c')"

definition JSON_parse :: "string \<Rightarrow> json parsed" where
  "JSON_parse text =
     (case tokenize text of
        Parsed ts \<Rightarrow>
          (case prun ts (ExpValue, []) of
             Some (Finished v, _) \<Rightarrow> Parsed v
           | _ \<Rightarrow> SyntaxError)
      | SyntaxError \<Rightarrow> SyntaxError)"

subsection \<open>The selection state\<close>

text \<open>
  A task record as \<^verbatim>\<open>extractTaskData\<close> builds it from a task card that carries a
  \<^verbatim>\<open>data-task\<close> attribute: six strings; the field \<^verbatim>\<open>id\<close> is \<open>task_id\<close> here.
  \<^verbatim>\<open>this.selectedTasks\<close> is a JavaScript \<^verbatim>\<open>Set\<close>: its elements in insertion order,
  each once. What the methods do to the document (classes, the counter, the button) is not
  part of the state.
\<close>

record task =
  task_id :: string
  title :: string
  description :: string
  duration :: string
  difficulty :: string
  category :: string

record planner =
  selectedTasks :: "string list"
  projectPlan :: "task list"

definition new_planner :: planner where
  \<comment> \<open>the fields as the constructor sets them\<close>
  "new_planner = \<lparr>selectedTasks = [], projectPlan = []\<rparr>"

definition Set_add :: "'a \<Rightarrow> 'a list \<Rightarrow> 'a list" where
  "Set_add x xs = (if x \<in> set xs then xs else xs @ [x])"

definition Set_delete :: "'a \<Rightarrow> 'a list \<Rightarrow> 'a list" where
  "Set_delete x xs = filter (\<lambda>y. y \<noteq> x) xs"

fun findIndex :: "('a \<Rightarrow> bool) \<Rightarrow> 'a list \<Rightarrow> int" where
  "findIndex P [] = - 1"
| "findIndex P (x # xs) =
     (if P x then 0 else (let i = findIndex P xs in if i = - 1 then - 1 else i + 1))"

definition addToProjectPlan :: "task \<Rightarrow> task list \<Rightarrow> task list" where
  "addToProjectPlan taskData plan =
     (let existingIndex = findIndex (\<lambda>task. task_id task = task_id taskData) plan
      in if existingIndex = - 1 then plan @ [taskData] else plan)"

definition removeFromProjectPlan :: "string \<Rightarrow> task list \<Rightarrow> task list" where
  "removeFromProjectPlan taskId plan = filter (\<lambda>task. task_id task \<noteq> taskId) plan"

text \<open>The invariant of the selection state.\<close>

definition consistent :: "planner \<Rightarrow> bool" where
  "consistent p \<longleftrightarrow>
     task_id ` set (projectPlan p) = set (selectedTasks p) \<and>
     distinct (map task_id (projectPlan p)) \<and> distinct (selectedTasks p)"

subsection \<open>Persistence\<close>

text \<open>
  \<^verbatim>\<open>localStorage\<close> maps a key to its text; \<open>None\<close> is the \<^verbatim>\<open>null\<close> that
  \<^verbatim>\<open>getItem\<close> returns for a key never set. The store always answers: \<^verbatim>\<open>getItem\<close>
  does not throw, and \<^verbatim>\<open>setItem\<close> always stores (no quota).
\<close>

type_synonym storage = "string \<Rightarrow> string option"

definition stringify_task :: "task \<Rightarrow> string" where
  \<comment> \<open>\<^verbatim>\<open>JSON.stringify\<close> of a task record: its six string fields in creation order\<close>
  "stringify_task t = ''{'' @ join '','' 
     [quote ''id'' @ '':'' @ quote (task_id t),
      quote ''title'' @ '':'' @ quote (title t),
      quote ''description'' @ '':'' @ quote (description t),
      quote ''duration'' @ '':'' @ quote (duration t),
      quote ''difficulty'' @ '':'' @ quote (difficulty t),
      quote ''category'' @ '':'' @ quote (category t)] @ ''}''"

definition stringify_plan :: "task list \<Rightarrow> string" where
  "stringify_plan plan = ''['' @ join '','' (map stringify_task plan) @ '']''"

definition stringify_ids :: "string list \<Rightarrow> string" where
  "stringify_ids ids = ''['' @ join '','' (map quote ids) @ '']''"

definition savePlan :: "planner \<Rightarrow> storage \<Rightarrow> storage" where
  "savePlan this localStorage =
     (localStorage(''uxProjectPlan'' \<mapsto> stringify_plan (projectPlan this)))
       (''uxSelectedTasks'' \<mapsto> stringify_ids (selectedTasks this))"

definition handleTaskSelection ::
  "bool \<Rightarrow> task \<Rightarrow> planner \<Rightarrow> storage \<Rightarrow> planner \<times> storage" where
  \<comment> \<open>the check box's \<^verbatim>\<open>checked\<close> and the data of its task card\<close>
  "handleTaskSelection checked taskData this localStorage =
     (let taskId = task_id taskData;
          this' =
            (if checked
             then \<lparr>selectedTasks = Set_add taskId (selectedTasks this),
                   projectPlan = addToProjectPlan taskData (projectPlan this)\<rparr>
             else \<lparr>selectedTasks = Set_delete taskId (selectedTasks this),
                   projectPlan = removeFromProjectPlan taskId (projectPlan this)\<rparr>)
      in (this', savePlan this' localStorage))"

fun handle_all :: "(bool \<times> task) list \<Rightarrow> planner \<times> storage \<Rightarrow> planner \<times> storage" where
  \<comment> \<open>a sequence of selection events, each handled to completion\<close>
  "handle_all [] s = s"
| "handle_all ((checked, taskData) # es) (this, localStorage) =
     handle_all es (handleTaskSelection checked taskData this localStorage)"

text \<open>
  Reading the persisted values back. \<^verbatim>\<open>JSON.parse\<close> gives a value of any shape, and the
  program keeps what it gets: \<^verbatim>\<open>this.projectPlan\<close> becomes the parsed value, and every
  element of the parsed id array is added to \<^verbatim>\<open>this.selectedTasks\<close>. So the load is
  modelled on JSON values; \<open>restored\<close> below reads its result as a SelectionState where it
  is one.
\<close>

definition json_of_task :: "task \<Rightarrow> json" where
  \<comment> \<open>a task record as a JSON value\<close>
  "json_of_task t =
     JObject [(units ''id'', JString (units (task_id t))),
              (units ''title'', JString (units (title t))),
              (units ''description'', JString (units (description t))),
              (units ''duration'', JString (units (duration t))),
              (units ''difficulty'', JString (units (difficulty t))),
              (units ''category'', JString (units (category t)))]"

record loaded =
  loaded_plan :: json    \<comment> \<open>\<^verbatim>\<open>this.projectPlan\<close> after the load\<close>
  added :: "json list"   \<comment> \<open>the values passed to \<^verbatim>\<open>this.selectedTasks.add\<close>, in this order
                             (the Set holds each of them once)\<close>
  logged :: bool         \<comment> \<open>\<^verbatim>\<open>console.error\<close> was called\<close>

datatype 'a completion =
  Normal 'a    \<comment> \<open>the statement completed\<close>
  | Throw 'a   \<comment> \<open>an exception left the \<^verbatim>\<open>try\<close> block; what had been done by then\<close>

fun add_ids :: "(json \<Rightarrow> bool) \<Rightarrow> json list \<Rightarrow> json list \<times> bool" where
  \<comment> \<open>\<^verbatim>\<open>taskIds.forEach\<close>: the values added, and whether \<^verbatim>\<open>document.querySelector\<close>
      threw. \<open>selector_ok taskId\<close> says that the document accepts the selector
      \<^verbatim>\<open>[data-task="${taskId}"]\<close>; the value is added before the selector is used.\<close>
  "add_ids selector_ok [] = ([], False)"
| "add_ids selector_ok (taskId # rest) =
     (if selector_ok taskId
      then (case add_ids selector_ok rest of (a, threw) \<Rightarrow> (taskId # a, threw))
      else ([taskId], True))"

definition load_plan :: "string option \<Rightarrow> json \<Rightarrow> json completion" where
  \<comment> \<open>\<^verbatim>\<open>if (savedPlan) { this.projectPlan = JSON.parse(savedPlan); }\<close>, from the value
      that \<^verbatim>\<open>this.projectPlan\<close> has before\<close>
  "load_plan savedPlan plan =
     (case savedPlan of
        None \<Rightarrow> Normal plan
      | Some text \<Rightarrow>
          if text = [] then Normal plan
          else (case JSON_parse text of
                  Parsed j \<Rightarrow> Normal j
                | SyntaxError \<Rightarrow> Throw plan))"

definition load_tasks :: "(json \<Rightarrow> bool) \<Rightarrow> string option \<Rightarrow> json list completion" where
  \<comment> \<open>\<^verbatim>\<open>if (savedTasks) { const taskIds = JSON.parse(savedTasks); taskIds.forEach(...) }\<close>;
      a parsed value that is no array has no \<^verbatim>\<open>forEach\<close>: a TypeError\<close>
  "load_tasks selector_ok savedTasks =
     (case savedTasks of
        None \<Rightarrow> Normal []
      | Some text \<Rightarrow>
          if text = [] then Normal []
          else (case JSON_parse text of
                  Parsed j \<Rightarrow>
                    (case j of
                       JArray taskIds \<Rightarrow>
                         (case add_ids selector_ok taskIds of
                            (a, threw) \<Rightarrow> if threw then Throw a else Normal a)
                     | _ \<Rightarrow> Throw [])
                | SyntaxError \<Rightarrow> Throw []))"

definition loadSavedPlan :: "(json \<Rightarrow> bool) \<Rightarrow> storage \<Rightarrow> planner \<Rightarrow> loaded" where
  \<comment> \<open>the \<^verbatim>\<open>try\<close> block and its \<^verbatim>\<open>catch\<close>, run on the planner \<open>this\<close>\<close>
  "loadSavedPlan selector_ok localStorage this =
     (let savedPlan = localStorage ''uxProjectPlan'';
          savedTasks = localStorage ''uxSelectedTasks''
      in case load_plan savedPlan (JArray (map json_of_task (projectPlan this))) of
           Normal plan \<Rightarrow>
             (case load_tasks selector_ok savedTasks of
                Normal a \<Rightarrow> \<lparr>loaded_plan = plan, added = a, logged = False\<rparr>
              | Throw a \<Rightarrow> \<lparr>loaded_plan = plan, added = a, logged = True\<rparr>)
         | Throw plan \<Rightarrow> \<lparr>loaded_plan = plan, added = [], logged = True\<rparr>)"

text \<open>
  The loaded values as a SelectionState: the plan value is an array of objects that have
  the six fields of a task as strings of the program (for a key written twice,
  \<^verbatim>\<open>JSON.parse\<close> keeps the last value), and the added values are strings.
\<close>

definition string_of_units :: "ustring \<Rightarrow> string option" where
  "string_of_units us = (if list_all (\<lambda>u. u < 256) us then Some (map char_of us) else None)"

definition string_value :: "json \<Rightarrow> string option" where
  "string_value j = (case j of JString us \<Rightarrow> string_of_units us | _ \<Rightarrow> None)"

definition field :: "(ustring \<times> json) list \<Rightarrow> string \<Rightarrow> string option" where
  "field ms k = (case map_of (rev ms) (units k) of Some j \<Rightarrow> string_value j | None \<Rightarrow> None)"

definition task_of_json :: "json \<Rightarrow> task option" where
  "task_of_json j =
     (case j of
        JObject ms \<Rightarrow>
          (case field ms ''id'' of None \<Rightarrow> None | Some a \<Rightarrow>
          (case field ms ''title'' of None \<Rightarrow> None | Some b \<Rightarrow>
          (case field ms ''description'' of None \<Rightarrow> None | Some c \<Rightarrow>
          (case field ms ''duration'' of None \<Rightarrow> None | Some d \<Rightarrow>
          (case field ms ''difficulty'' of None \<Rightarrow> None | Some e \<Rightarrow>
          (case field ms ''category'' of None \<Rightarrow> None | Some f \<Rightarrow>
             Some \<lparr>task_id = a, title = b, description = c, duration = d,
                   difficulty = e, category = f\<rparr>))))))
      | _ \<Rightarrow> None)"

definition plan_of_json :: "json \<Rightarrow> task list option" where
  "plan_of_json j = (case j of JArray es \<Rightarrow> those (map task_of_json es) | _ \<Rightarrow> None)"

definition ids_of_json :: "json list \<Rightarrow> string list option" where
  "ids_of_json es = those (map string_value es)"

definition restored :: "planner \<Rightarrow> loaded \<Rightarrow> planner option" where
  \<comment> \<open>the state after a load that started on \<open>this\<close>\<close>
  "restored this l =
     (case plan_of_json (loaded_plan l) of
        None \<Rightarrow> None
      | Some plan \<Rightarrow>
          (case ids_of_json (added l) of
             None \<Rightarrow> None
           | Some ids \<Rightarrow>
               Some \<lparr>selectedTasks = foldl (\<lambda>sel i. Set_add i sel) (selectedTasks this) ids,
                     projectPlan = plan\<rparr>))"

text \<open>The tokens of the texts that \<^const>\<open>savePlan\<close> writes.\<close>

definition task_tokens :: "task \<Rightarrow> token list" where
  "task_tokens t =
     [TLBrace, TString (units ''id''), TColon, TString (units (task_id t)), TComma,
      TString (units ''title''), TColon, TString (units (title t)), TComma,
      TString (units ''description''), TColon, TString (units (description t)), TComma,
      TString (units ''duration''), TColon, TString (units (duration t)), TComma,
      TString (units ''difficulty''), TColon, TString (units (difficulty t)), TComma,
      TString (units ''category''), TColon, TString (units (category t)), TRBrace]"

fun plan_tokens :: "task list \<Rightarrow> token list" where
  "plan_tokens [] = []"
| "plan_tokens [t] = task_tokens t"
| "plan_tokens (t # u # us) = task_tokens t @ TComma # plan_tokens (u # us)"

fun id_tokens :: "string list \<Rightarrow> token list" where
  "id_tokens [] = []"
| "id_tokens [i] = [TString (units i)]"
| "id_tokens (i # j # js) = TString (units i) # TComma # id_tokens (j # js)"

definition accepts_all :: "json \<Rightarrow> bool" where
  \<comment> \<open>a document in which every id gives a selector that \<^verbatim>\<open>querySelector\<close> accepts\<close>
  "accepts_all taskId = True"

definition task_card :: "string \<Rightarrow> string \<Rightarrow> string \<Rightarrow> task" where
  \<comment> \<open>the data of a task card with the given id, duration text and category\<close>
  "task_card i d c = \<lparr>task_id = i, title = i, description = [], duration = d,
                 difficulty = ''Beginner'', category = c\<rparr>"

subsection \<open>generateTimeline\<close>

record timeline_entry =
  task :: string
  startDay :: int
  endDay :: int
  duration_days :: int  \<comment> \<open>the entry's field \<^verbatim>\<open>duration\<close>\<close>

record timeline_result =
  timeline :: "timeline_entry list"
  totalDays :: int

definition timeline_step :: "timeline_result \<Rightarrow> task \<Rightarrow> timeline_result" where
  \<comment> \<open>the body of the \<^verbatim>\<open>forEach\<close>, in exact arithmetic; the program's doubles give
      the same days while \<^verbatim>\<open>totalDays\<close> stays a safe integer\<close>
  "timeline_step acc t =
     (let d = parseDuration (duration t)
      in \<lparr>timeline = timeline acc @
            [\<lparr>task = title t, startDay = totalDays acc + 1, endDay = totalDays acc + d,
              duration_days = d\<rparr>],
          totalDays = totalDays acc + d\<rparr>)"

definition generateTimeline :: "task list \<Rightarrow> timeline_result" where
  "generateTimeline plan = foldl timeline_step \<lparr>timeline = [], totalDays = 0\<rparr> plan"

subsection \<open>groupTasksByCategory\<close>

text \<open>
  \<^verbatim>\<open>categories\<close> is a plain object: its own properties in creation order, and behind
  them the properties inherited from \<^verbatim>\<open>Object.prototype\<close>. The inherited values are
  functions (\<^verbatim>\<open>__proto__\<close>: the prototype itself): truthy, and without a \<^verbatim>\<open>push\<close>.
  \<^verbatim>\<open>Object.keys\<close> and \<^verbatim>\<open>Object.entries\<close> list the own properties that are array indices
  first, in ascending numeric order, then the other keys in creation order.
\<close>

datatype js_error = TypeError

definition Object_prototype_keys :: "string list" where
  "Object_prototype_keys =
     [''constructor'', ''hasOwnProperty'', ''isPrototypeOf'', ''propertyIsEnumerable'',
      ''toLocaleString'', ''toString'', ''valueOf'', ''__proto__'', ''__defineGetter__'',
      ''__defineSetter__'', ''__lookupGetter__'', ''__lookupSetter__'']"

definition is_array_index :: "string \<Rightarrow> bool" where
  \<comment> \<open>the canonical decimal form of an integer from 0 to \<open>2 ^ 32 - 2\<close>\<close>
  "is_array_index k =
     (k \<noteq> [] \<and> list_all is_digit k \<and> (k = ''0'' \<or> hd k \<noteq> CHR ''0'') \<and>
      parseInt k < 2 ^ 32 - 1)"

definition Object_entries :: "(string \<times> 'v) list \<Rightarrow> (string \<times> 'v) list" where
  "Object_entries obj =
     sort_key (\<lambda>(k, v). parseInt k) (filter (\<lambda>(k, v). is_array_index k) obj) @
     filter (\<lambda>(k, v). \<not> is_array_index k) obj"

definition Object_keys :: "(string \<times> 'v) list \<Rightarrow> string list" where
  "Object_keys obj = map fst (Object_entries obj)"

definition group_step ::
  "js_error + (string \<times> task list) list \<Rightarrow> task \<Rightarrow> js_error + (string \<times> task list) list" where
  \<comment> \<open>the body of the \<^verbatim>\<open>forEach\<close>; an exception ends the loop\<close>
  "group_step acc t =
     (case acc of
        Inl e \<Rightarrow> Inl e
      | Inr categories \<Rightarrow>
          (case map_of categories (category t) of
             Some bucket \<Rightarrow>
               Inr (map (\<lambda>(k, b). if k = category t then (k, b @ [t]) else (k, b)) categories)
           | None \<Rightarrow>
               if category t \<in> set Object_prototype_keys then Inl TypeError
               else Inr (categories @ [(category t, [t])])))"

definition groupTasksByCategory :: "task list \<Rightarrow> js_error + (string \<times> task list) list" where
  "groupTasksByCategory plan = foldl group_step (Inr []) plan"

text \<open>
  The grouping in the specification's words: one bucket per category in the order in which
  the categories first occur in the plan, each bucket holding its tasks in plan order.
\<close>

definition first_seen :: "'a list \<Rightarrow> 'a list" where
  \<comment> \<open>the distinct elements of a list, each at its first occurrence\<close>
  "first_seen xs = rev (remdups (rev xs))"

definition grouped_spec :: "task list \<Rightarrow> (string \<times> task list) list" where
  "grouped_spec plan =
     map (\<lambda>c. (c, filter (\<lambda>t. category t = c) plan)) (first_seen (map category plan))"

subsection \<open>generateProjectPlan\<close>

text \<open>
  A date is its day number; \<^verbatim>\<open>setDate(getDate() + n)\<close> moves it by \<open>n\<close> days, as long
  as the result stays in the range of \<^verbatim>\<open>Date\<close> (about \<open>10 ^ 8\<close> days around 1970;
  beyond it the program's date is invalid, which the day number does not show). The
  document is what \<^verbatim>\<open>createPlanDocument\<close> returns, before it is rendered.
\<close>

record plan_document =
  createdDate :: int
  estimatedDuration :: int  \<comment> \<open>rendered as \<^verbatim>\<open>N days\<close>\<close>
  estimatedCompletion :: int
  taskCount :: nat
  categories :: nat
  tasksByCategory :: "(string \<times> task list) list"
  doc_timeline :: "timeline_entry list"
  doc_totalDays :: int

definition createPlanDocument ::
  "int \<Rightarrow> task list \<Rightarrow> (string \<times> task list) list \<Rightarrow> timeline_result \<Rightarrow> plan_document" where
  "createPlanDocument today plan byCategory result =
     \<lparr>createdDate = today,
      estimatedDuration = totalDays result,
      estimatedCompletion = today + totalDays result,
      taskCount = length plan,
      categories = length (Object_keys byCategory),
      tasksByCategory = byCategory,
      doc_timeline = timeline result,
      doc_totalDays = totalDays result\<rparr>"

datatype generation =
  Alert string               \<comment> \<open>\<^verbatim>\<open>alert(...)\<close> and return: no document\<close>
  | PlanModal plan_document  \<comment> \<open>the document handed to \<^verbatim>\<open>showPlanModal\<close>\<close>

definition generateProjectPlan :: "int \<Rightarrow> planner \<Rightarrow> js_error + generation" where
  "generateProjectPlan today this =
     (if length (selectedTasks this) = 0
      then Inr (Alert ''Please select at least one task to create a project plan.'')
      else (case groupTasksByCategory (projectPlan this) of
              Inl e \<Rightarrow> Inl e
            | Inr byCategory \<Rightarrow>
                Inr (PlanModal (createPlanDocument today (projectPlan this) byCategory
                                  (generateTimeline (projectPlan this))))))"

subsection \<open>formatCategoryName\<close>

definition toUpperCase1 :: "char \<Rightarrow> char" where
  "toUpperCase1 c =
     (case map_of (zip ''abcdefghijklmnopqrstuvwxyz'' ''ABCDEFGHIJKLMNOPQRSTUVWXYZ'') c of
        Some u \<Rightarrow> u | None \<Rightarrow> c)"

definition toUpperCase :: "string \<Rightarrow> string" where
  \<comment> \<open>exact on ASCII (code units below 128). JavaScript also maps letters above 127, and
      turns U+00DF into two characters; here they stay as they are, and what is stated
      about an upper-cased character is stated for ASCII\<close>
  "toUpperCase s = map toUpperCase1 s"

fun replace_first :: "char \<Rightarrow> char \<Rightarrow> string \<Rightarrow> string" where
  \<comment> \<open>\<^verbatim>\<open>String.prototype.replace\<close> with a one-character string pattern: the first
      occurrence only\<close>
  "replace_first a b [] = []"
| "replace_first a b (c # cs) = (if c = a then b # cs else c # replace_first a b cs)"

definition formatCategoryName :: "string \<Rightarrow> string" where
  \<comment> \<open>\<^verbatim>\<open>charAt(0)\<close> is \<open>take 1\<close>, \<^verbatim>\<open>slice(1)\<close> is \<open>drop 1\<close>\<close>
  "formatCategoryName category' =
     toUpperCase (take 1 category') @ replace_first (CHR ''-'') (CHR '' '') (drop 1 category')"

text \<open>
  The category headings of the three renderers. Each maps over
  \<^verbatim>\<open>Object.entries(plan.tasksByCategory)\<close> and writes
  \<^verbatim>\<open>this.formatCategoryName(category)\<close> for the key: \<^verbatim>\<open>generatePlanHTML\<close> and
  \<^verbatim>\<open>generatePDFHTML\<close> inside an \<^verbatim>\<open>h3\<close> element, \<^verbatim>\<open>generateEmailBody\<close> before a
  colon. The rest of the three templates is not part of the model.
\<close>

definition generatePlanHTML_headings :: "(string \<times> task list) list \<Rightarrow> string list" where
  "generatePlanHTML_headings byCategory =
     map (\<lambda>(category', tasks). ''<h3>'' @ formatCategoryName category' @ ''</h3>'')
       (Object_entries byCategory)"

definition generateEmailBody_headings :: "(string \<times> task list) list \<Rightarrow> string list" where
  "generateEmailBody_headings byCategory =
     map (\<lambda>(category', tasks). formatCategoryName category' @ '':'')
       (Object_entries byCategory)"

definition generatePDFHTML_headings :: "(string \<times> task list) list \<Rightarrow> string list" where
  "generatePDFHTML_headings byCategory =
     map (\<lambda>(category', tasks). ''<h3>'' @ formatCategoryName category' @ ''</h3>'')
       (Object_entries byCategory)"

section \<open>Properties\<close>

subsection \<open>The duration parser\<close>

lemma digit_runs_nondigit: "s = [] \<or> \<not> is_digit (hd s) \<Longrightarrow> digit_runs s = []"
  by (cases s) auto

lemma digit_runs_longest:
  "d \<noteq> [] \<Longrightarrow> \<forall>c\<in>set d. is_digit c \<Longrightarrow> r = [] \<or> \<not> is_digit (hd r) \<Longrightarrow>
   \<exists>X. digit_runs (d @ r) = (d, r) # X"
proof (induction d)
  case Nil
  then show ?case by simp
next
  case (Cons c d)
  show ?case
  proof (cases "d = []")
    case True
    with Cons.prems show ?thesis by (simp add: digit_runs_nondigit)
  next
    case False
    with Cons obtain X where "digit_runs (d @ r) = (d, r) # X" by auto
    with Cons.prems show ?thesis by simp
  qed
qed

lemma digit_runs_sound:
  "(d, r) \<in> set (digit_runs s) \<Longrightarrow> d \<noteq> [] \<and> (\<forall>c\<in>set d. is_digit c) \<and> s = d @ r"
  by (induction s arbitrary: d r) (auto split: if_splits)

lemma space_runs_longest:
  "\<forall>c\<in>set w. is_space c \<Longrightarrow> r = [] \<or> \<not> is_space (hd r) \<Longrightarrow>
   \<exists>X. space_runs (w @ r) = r # X"
proof (induction w)
  case Nil
  then show ?case by (cases r) auto
next
  case (Cons c w)
  then show ?case by auto
qed

lemma parseInt_snoc: "parseInt (ds @ [c]) = 10 * parseInt ds + (int (of_char c) - 48)"
  by (simp add: parseInt_def)

lemma is_digit_ge: "is_digit c \<Longrightarrow> 48 \<le> int (of_char c)"
  by (auto simp: is_digit_def)

lemma parseInt_nonneg: "\<forall>c\<in>set ds. is_digit c \<Longrightarrow> 0 \<le> parseInt ds"
proof (induction ds rule: rev_induct)
  case Nil
  then show ?case by (simp add: parseInt_def)
next
  case (snoc c ds)
  then have "0 \<le> parseInt ds" and "48 \<le> int (of_char c)" by (auto dest: is_digit_ge)
  then show ?case by (simp add: parseInt_snoc)
qed

lemma literal_i_sound: "u \<in> set (literal_i p s) \<Longrightarrow> toLowerCase u = p"
  by (auto simp: literal_i_def Let_def split: if_splits)

lemma unit_alt_sound: "u \<in> set (unit_alt s) \<Longrightarrow> toLowerCase u \<in> {''day'', ''week''}"
  by (auto simp: unit_alt_def dest: literal_i_sound)

lemma opt_bound_sound:
  "(m2, r) \<in> set (opt_bound s) \<Longrightarrow> m2 = Some m \<Longrightarrow> \<forall>c\<in>set m. is_digit c"
  by (auto simp: opt_bound_def dest!: digit_runs_sound split: list.splits if_splits)

lemma matches_at_sound:
  assumes "(m1, m2, u) \<in> set (matches_at s)"
  shows "(\<forall>c\<in>set m1. is_digit c) \<and> (\<forall>m. m2 = Some m \<longrightarrow> (\<forall>c\<in>set m. is_digit c))
         \<and> toLowerCase u \<in> {''day'', ''week''}"
proof -
  from assms obtain r1 r2 r3 where a: "(m1, r1) \<in> set (digit_runs s)"
    and b: "(m2, r2) \<in> set (opt_bound r1)" and c: "u \<in> set (unit_alt r3)"
    by (auto simp: matches_at_def)
  from a have "\<forall>c\<in>set m1. is_digit c" by (auto dest: digit_runs_sound)
  moreover from b have "\<forall>m. m2 = Some m \<longrightarrow> (\<forall>c\<in>set m. is_digit c)"
    using opt_bound_sound by blast
  moreover from c have "toLowerCase u \<in> {''day'', ''week''}" by (rule unit_alt_sound)
  ultimately show ?thesis by blast
qed

lemma regex_match_sound:
  "regex_match s = Some m \<Longrightarrow> \<exists>t. m \<in> set (matches_at t)"
proof (induction s)
  case Nil
  then show ?case by (cases "matches_at []") (auto intro: exI[of _ "[]"])
next
  case (Cons c cs)
  show ?case
  proof (cases "matches_at (c # cs)")
    case Nil
    with Cons show ?thesis by simp
  next
    case (Cons m' ms)
    with Cons.prems have "m \<in> set (matches_at (c # cs))" by simp
    then show ?thesis by blast
  qed
qed

text \<open>Rounding the midpoint up, in integer arithmetic.\<close>

lemma ceiling_half: "\<lceil>(of_int k :: rat) / 2\<rceil> = (k + 1) div 2"
proof -
  have "\<lceil>(of_int k :: rat) / of_int 2\<rceil> = - (- k div 2)"
    by (rule ceiling_divide_eq_div)
  moreover have "- (- k div 2) = (k + 1) div 2" by presburger
  ultimately show ?thesis by simp
qed

lemma ceiling_half_week: "\<lceil>(of_int k :: rat) / 2 * 7\<rceil> = (7 * k + 1) div 2"
proof -
  have "(of_int k :: rat) / 2 * 7 = of_int (7 * k) / 2" by simp
  then show ?thesis by (simp only: ceiling_half)
qed

lemma parseDuration_Some:
  "regex_match s = Some (m1, m2, u) \<Longrightarrow>
   parseDuration s = (if toLowerCase u = ''week'' then (7 * bound_sum (m1, m2, u) + 1) div 2
                      else (bound_sum (m1, m2, u) + 1) div 2)"
  by (cases "toLowerCase u = ''week''")
     (simp_all only: parseDuration_def Let_def option.case prod.case ceiling_half
        ceiling_half_week bound_sum_def if_True if_False simp_thms)

lemma bound_sum_nonneg:
  assumes "regex_match s = Some m" shows "0 \<le> bound_sum m"
proof -
  obtain m1 m2 u where m: "m = (m1, m2, u)" by (cases m)
  from assms obtain t where "m \<in> set (matches_at t)" by (blast dest: regex_match_sound)
  with m have d: "\<forall>c\<in>set m1. is_digit c" "\<forall>x. m2 = Some x \<longrightarrow> (\<forall>c\<in>set x. is_digit c)"
    using matches_at_sound by blast+
  have "0 \<le> parseInt m1" using d(1) by (rule parseInt_nonneg)
  moreover have "0 \<le> (case m2 of Some x \<Rightarrow> parseInt x | None \<Rightarrow> parseInt m1)"
    using d(2) \<open>0 \<le> parseInt m1\<close> by (cases m2) (auto intro: parseInt_nonneg)
  ultimately show ?thesis by (simp add: m bound_sum_def)
qed

lemma parseDuration_nonneg: "0 \<le> parseDuration s"
proof (cases "regex_match s")
  case None
  then show ?thesis by (simp add: parseDuration_def)
next
  case (Some m)
  obtain m1 m2 u where m: "m = (m1, m2, u)" by (cases m)
  from Some have "0 \<le> bound_sum m" by (rule bound_sum_nonneg)
  with Some m show ?thesis by (simp add: parseDuration_Some)
qed

lemma parseDuration_positive_iff:
  "1 \<le> parseDuration s \<longleftrightarrow> (\<forall>m. regex_match s = Some m \<longrightarrow> 0 < bound_sum m)"
proof (cases "regex_match s")
  case None
  then show ?thesis by (simp add: parseDuration_def)
next
  case (Some m)
  obtain m1 m2 u where m: "m = (m1, m2, u)" by (cases m)
  from Some have "0 \<le> bound_sum m" by (rule bound_sum_nonneg)
  with Some m show ?thesis by (auto simp add: parseDuration_Some)
qed

text \<open>Which texts match, and with which captures.\<close>

lemma matches_at_nondigit: "s = [] \<or> \<not> is_digit (hd s) \<Longrightarrow> matches_at s = []"
  by (simp add: matches_at_def digit_runs_nondigit)

lemma regex_match_skip:
  "\<forall>c\<in>set pre. \<not> is_digit c \<Longrightarrow> regex_match (pre @ s) = regex_match s"
  by (induction pre) (simp_all add: matches_at_nondigit)

lemma regex_match_nodigit: "\<forall>c\<in>set s. \<not> is_digit c \<Longrightarrow> regex_match s = None"
  using regex_match_skip [of s "[]"] by (simp add: matches_at_nondigit)

lemma regex_match_first: "matches_at s = m # X \<Longrightarrow> regex_match s = Some m"
  by (cases s) simp_all

lemma unit_first:
  assumes "toLowerCase u \<in> {''day'', ''week''}"
  shows "\<exists>X. unit_alt (u @ rest) = u # X"
proof -
  from assms consider "toLowerCase u = ''day''" | "toLowerCase u = ''week''" by auto
  then show ?thesis
  proof cases
    case 1
    then have "length (toLowerCase u) = 3" by simp
    then have "length u = 3" by (simp add: toLowerCase_def)
    with 1 show ?thesis by (simp add: unit_alt_def literal_i_def)
  next
    case 2
    then have "length (toLowerCase u) = 4" by simp
    then have l: "length u = 4" by (simp add: toLowerCase_def)
    have "toLowerCase (take (length ''day'') (u @ rest)) =
          take (length ''day'') (toLowerCase u)"
      using l by (simp add: toLowerCase_def take_map)
    with 2 have "toLowerCase (take (length ''day'') (u @ rest)) \<noteq> ''day''" by simp
    with 2 l show ?thesis by (simp add: unit_alt_def literal_i_def)
  qed
qed

lemma unit_head:
  assumes "toLowerCase u \<in> {''day'', ''week''}"
  shows "\<not> is_digit (hd (u @ rest)) \<and> \<not> is_space (hd (u @ rest)) \<and>
         hd (u @ rest) \<noteq> CHR ''-'' \<and> u \<noteq> []"
proof -
  from assms obtain c cs where u: "u = c # cs" and "toLowerCase1 c \<in> {CHR ''d'', CHR ''w''}"
    by (cases u) (auto simp: toLowerCase_def)
  then have "c \<in> {CHR ''d'', CHR ''w'', CHR ''D'', CHR ''W''}"
    by (auto simp: toLowerCase1_def split: if_splits)
  with u show ?thesis by (auto simp: is_digit_def is_space_def)
qed

lemma tail_first:
  assumes w: "\<forall>c\<in>set w. is_space c" and u: "toLowerCase u \<in> {''day'', ''week''}"
  shows "\<exists>X. [u'. r3 \<leftarrow> space_runs (w @ u @ rest), u' \<leftarrow> unit_alt r3] = u # X"
proof -
  from unit_head [OF u] have "u @ rest = [] \<or> \<not> is_space (hd (u @ rest))" by blast
  with w obtain X where "space_runs (w @ (u @ rest)) = (u @ rest) # X"
    using space_runs_longest by blast
  moreover from unit_first [OF u] obtain Y where "unit_alt (u @ rest) = u # Y" by blast
  ultimately show ?thesis by simp
qed

lemma tail_head:
  assumes w: "\<forall>c\<in>set w. is_space c" and u: "toLowerCase u \<in> {''day'', ''week''}"
  shows "w @ u @ rest \<noteq> [] \<and> \<not> is_digit (hd (w @ u @ rest)) \<and>
         hd (w @ u @ rest) \<noteq> CHR ''-''"
proof (cases w)
  case Nil
  with unit_head [OF u, of rest] show ?thesis by auto
next
  case (Cons c cs)
  with w have "is_space c" by simp
  then have "\<not> is_digit c" "c \<noteq> CHR ''-''" by (auto simp: is_space_def is_digit_def)
  with Cons show ?thesis by simp
qed

lemma matches_at_single:
  assumes d1: "d1 \<noteq> []" "\<forall>c\<in>set d1. is_digit c"
    and w: "\<forall>c\<in>set w. is_space c" and u: "toLowerCase u \<in> {''day'', ''week''}"
  shows "\<exists>X. matches_at (d1 @ w @ u @ rest) = (d1, None, u) # X"
proof -
  let ?r = "w @ u @ rest"
  from tail_head [OF w u, of rest]
  have h: "?r \<noteq> []" "\<not> is_digit (hd ?r)" "hd ?r \<noteq> CHR ''-''" by blast+
  from d1 h obtain X where X: "digit_runs (d1 @ ?r) = (d1, ?r) # X"
    using digit_runs_longest by blast
  from h have ob: "opt_bound ?r = [(None, ?r)]"
    by (cases ?r) (auto simp: opt_bound_def)
  from tail_first [OF w u, of rest] obtain Y
    where Y: "[u'. r3 \<leftarrow> space_runs ?r, u' \<leftarrow> unit_alt r3] = u # Y" by blast
  have "matches_at (d1 @ ?r) =
        map (\<lambda>u'. (d1, None, u')) [u'. r3 \<leftarrow> space_runs ?r, u' \<leftarrow> unit_alt r3] @
        [(d1', d2, u'). (d1', r1) \<leftarrow> X, (d2, r2) \<leftarrow> opt_bound r1,
                   r3 \<leftarrow> space_runs r2, u' \<leftarrow> unit_alt r3]"
    unfolding matches_at_def X by (simp add: ob map_concat comp_def)
  then show ?thesis unfolding Y by simp
qed

lemma matches_at_range:
  assumes d1: "d1 \<noteq> []" "\<forall>c\<in>set d1. is_digit c"
    and d2: "d2 \<noteq> []" "\<forall>c\<in>set d2. is_digit c"
    and w: "\<forall>c\<in>set w. is_space c" and u: "toLowerCase u \<in> {''day'', ''week''}"
  shows "\<exists>X. matches_at (d1 @ CHR ''-'' # d2 @ w @ u @ rest) = (d1, Some d2, u) # X"
proof -
  let ?r = "w @ u @ rest"
  let ?r1 = "CHR ''-'' # d2 @ ?r"
  from tail_head [OF w u, of rest]
  have h: "?r \<noteq> []" "\<not> is_digit (hd ?r)" by blast+
  have "\<not> is_digit (hd ?r1)" by (simp add: is_digit_def)
  with d1 obtain X where X: "digit_runs (d1 @ ?r1) = (d1, ?r1) # X"
    using digit_runs_longest [of d1 ?r1] by blast
  from d2 h obtain Z where Z: "digit_runs (d2 @ ?r) = (d2, ?r) # Z"
    using digit_runs_longest by blast
  then obtain Z' where ob: "opt_bound ?r1 = (Some d2, ?r) # Z'"
    by (simp add: opt_bound_def)
  from tail_first [OF w u, of rest] obtain Y
    where Y: "[u'. r3 \<leftarrow> space_runs ?r, u' \<leftarrow> unit_alt r3] = u # Y" by blast
  have "matches_at (d1 @ ?r1) =
        map (\<lambda>u'. (d1, Some d2, u')) [u'. r3 \<leftarrow> space_runs ?r, u' \<leftarrow> unit_alt r3] @
        [(d1, d2', u'). (d2', r2) \<leftarrow> Z', r3 \<leftarrow> space_runs r2, u' \<leftarrow> unit_alt r3] @
        [(d1', d2', u'). (d1', r1) \<leftarrow> X, (d2', r2) \<leftarrow> opt_bound r1,
                   r3 \<leftarrow> space_runs r2, u' \<leftarrow> unit_alt r3]"
    unfolding matches_at_def X by (simp add: ob map_concat comp_def)
  then show ?thesis unfolding Y by simp
qed

lemma regex_match_single:
  assumes "\<forall>c\<in>set pre. \<not> is_digit c" "d1 \<noteq> []" "\<forall>c\<in>set d1. is_digit c"
    "\<forall>c\<in>set w. is_space c" "toLowerCase u \<in> {''day'', ''week''}"
  shows "regex_match (pre @ d1 @ w @ u @ rest) = Some (d1, None, u)"
proof -
  from matches_at_single [OF assms(2-5)] obtain X
    where "matches_at (d1 @ w @ u @ rest) = (d1, None, u) # X" by blast
  then have "regex_match (d1 @ w @ u @ rest) = Some (d1, None, u)" by (rule regex_match_first)
  with assms(1) show ?thesis by (simp add: regex_match_skip)
qed

lemma regex_match_range:
  assumes "\<forall>c\<in>set pre. \<not> is_digit c" "d1 \<noteq> []" "\<forall>c\<in>set d1. is_digit c"
    "d2 \<noteq> []" "\<forall>c\<in>set d2. is_digit c"
    "\<forall>c\<in>set w. is_space c" "toLowerCase u \<in> {''day'', ''week''}"
  shows "regex_match (pre @ d1 @ ''-'' @ d2 @ w @ u @ rest) = Some (d1, Some d2, u)"
proof -
  from matches_at_range [OF assms(2-7)] obtain X
    where "matches_at (d1 @ CHR ''-'' # d2 @ w @ u @ rest) = (d1, Some d2, u) # X" by blast
  then have "regex_match (d1 @ CHR ''-'' # d2 @ w @ u @ rest) = Some (d1, Some d2, u)"
    by (rule regex_match_first)
  with assms(1) show ?thesis by (simp add: regex_match_skip)
qed

lemmas parseDuration_eval =
  parseDuration_def matches_at_def opt_bound_def unit_alt_def literal_i_def toLowerCase_def
  toLowerCase1_def is_digit_def is_space_def parseInt_def bound_sum_def

text \<open>
  Claim C1, as the program has it. \<^const>\<open>parseDuration\<close> returns a whole number of days that
  is never negative. There is no clamp: the result is at least 1 exactly when the text does
  not match (the default 2) or the matched bounds are not all zero; a match whose bounds
  are all zero gives 0 days.
\<close>

theorem parseDuration_lower_bound:
  "0 \<le> parseDuration s \<and>
   (1 \<le> parseDuration s \<longleftrightarrow> (\<forall>m. regex_match s = Some m \<longrightarrow> 0 < bound_sum m))"
  using parseDuration_nonneg parseDuration_positive_iff by blast

theorem parseDuration_lower_bound_witness:
  "regex_match ''2-4 days'' = Some (''2'', Some ''4'', ''day'') \<and>
   0 < bound_sum (''2'', Some ''4'', ''day'') \<and> 1 \<le> parseDuration ''2-4 days''"
proof -
  have m: "regex_match ''2-4 days'' = Some (''2'', Some ''4'', ''day'')"
    by (simp add: parseDuration_eval)
  have b: "0 < bound_sum (''2'', Some ''4'', ''day'')"
    by (simp add: parseDuration_eval)
  from m b parseDuration_lower_bound [of "''2-4 days''"] show ?thesis by simp
qed

text \<open>
  Claim C1 as stated fails: the text \<^verbatim>\<open>0 days\<close> matches with both bounds 0, and the
  result \<open>\<lceil>0\<rceil> = 0\<close> is returned unchanged.
\<close>

theorem parseDuration_zero_days_counterexample: "\<not> 1 \<le> parseDuration ''0 days''"
  by (simp add: parseDuration_eval)

lemma exact_duration_Some:
  "regex_match s = Some m \<Longrightarrow> exact_duration s = safe_integer (7 * bound_sum m)"
  by (simp add: exact_duration_def)

text \<open>
  Claim C6. On a text whose first digits start a duration (one bound or a range
  \<^verbatim>\<open>N-M\<close>, optional white space, \<^verbatim>\<open>day\<close> or \<^verbatim>\<open>week\<close> in any letter case),
  with bounds in the range in which the program's doubles do not round (seven times their
  sum is a safe integer, which is \<^const>\<open>exact_duration\<close> of the text),
  \<^const>\<open>parseDuration\<close> is the midpoint of the two bounds (the single bound counted twice),
  times 7 for weeks, rounded up; a text without a match gives 2. The four texts of the
  specification give 3, 7, 28 and 2.
\<close>

theorem parseDuration_midpoint:
  assumes "\<forall>c\<in>set pre. \<not> is_digit c"
    and "d1 \<noteq> []" and "\<forall>c\<in>set d1. is_digit c"
    and "d2 \<noteq> []" and "\<forall>c\<in>set d2. is_digit c"
    and "\<forall>c\<in>set w. is_space c" and "toLowerCase u \<in> {''day'', ''week''}"
    and "safe_integer (7 * (parseInt d1 + parseInt d2))"
    and "safe_integer (7 * (parseInt d1 + parseInt d1))"
  shows "exact_duration (pre @ d1 @ ''-'' @ d2 @ w @ u @ rest) \<and>
         exact_duration (pre @ d1 @ w @ u @ rest) \<and>
         parseDuration (pre @ d1 @ ''-'' @ d2 @ w @ u @ rest) =
           (if toLowerCase u = ''week''
            then \<lceil>(of_int (parseInt d1 + parseInt d2) :: rat) / 2 * 7\<rceil>
            else \<lceil>(of_int (parseInt d1 + parseInt d2) :: rat) / 2\<rceil>) \<and>
         parseDuration (pre @ d1 @ w @ u @ rest) =
           (if toLowerCase u = ''week''
            then \<lceil>(of_int (parseInt d1 + parseInt d1) :: rat) / 2 * 7\<rceil>
            else \<lceil>(of_int (parseInt d1 + parseInt d1) :: rat) / 2\<rceil>) \<and>
         (regex_match s = None \<longrightarrow> parseDuration s = 2) \<and>
         ((\<forall>c\<in>set s. \<not> is_digit c) \<longrightarrow> parseDuration s = 2) \<and>
         parseDuration ''2-4 days'' = 3 \<and> parseDuration ''1 week'' = 7 \<and>
         parseDuration ''3-5 weeks'' = 28 \<and> parseDuration ''garbage'' = 2"
proof -
  have a: "parseDuration (pre @ d1 @ ''-'' @ d2 @ w @ u @ rest) =
           (if toLowerCase u = ''week''
            then \<lceil>(of_int (parseInt d1 + parseInt d2) :: rat) / 2 * 7\<rceil>
            else \<lceil>(of_int (parseInt d1 + parseInt d2) :: rat) / 2\<rceil>)"
    using regex_match_range [OF assms(1-7), of rest]
    by (simp only: parseDuration_def Let_def option.case prod.case if_distrib [of ceiling])
  have x: "exact_duration (pre @ d1 @ ''-'' @ d2 @ w @ u @ rest)"
    using regex_match_range [OF assms(1-7), of rest] assms(8)
    by (simp add: exact_duration_Some bound_sum_def)
  have y: "exact_duration (pre @ d1 @ w @ u @ rest)"
    using regex_match_single [OF assms(1-3) assms(6,7), of rest] assms(9)
    by (simp add: exact_duration_Some bound_sum_def)
  have b: "parseDuration (pre @ d1 @ w @ u @ rest) =
           (if toLowerCase u = ''week''
            then \<lceil>(of_int (parseInt d1 + parseInt d1) :: rat) / 2 * 7\<rceil>
            else \<lceil>(of_int (parseInt d1 + parseInt d1) :: rat) / 2\<rceil>)"
    using regex_match_single [OF assms(1-3) assms(6,7), of rest]
    by (simp only: parseDuration_def Let_def option.case prod.case if_distrib [of ceiling])
  have c: "regex_match s = None \<longrightarrow> parseDuration s = 2"
    by (simp add: parseDuration_def)
  have d: "(\<forall>c\<in>set s. \<not> is_digit c) \<longrightarrow> parseDuration s = 2"
    by (simp add: parseDuration_def regex_match_nodigit)
  have e: "parseDuration ''2-4 days'' = 3" "parseDuration ''1 week'' = 7"
    "parseDuration ''3-5 weeks'' = 28" "parseDuration ''garbage'' = 2"
    by (simp_all add: parseDuration_eval)
  from x y a b c d e show ?thesis by blast
qed

theorem parseDuration_midpoint_witness:
  "exact_duration ''about 3-5 WEEKs'' \<and>
   parseDuration ''about 3-5 WEEKs'' = 28 \<and> parseDuration ''about 3 WEEKs'' = 21 \<and>
   parseDuration ''soon'' = 2"
proof -
  have h: "\<forall>c\<in>set ''about ''. \<not> is_digit c" "''3'' \<noteq> []" "\<forall>c\<in>set ''3''. is_digit c"
    "''5'' \<noteq> []" "\<forall>c\<in>set ''5''. is_digit c" "\<forall>c\<in>set '' ''. is_space c"
    "toLowerCase ''WEEK'' \<in> {''day'', ''week''}"
    by (simp_all add: parseDuration_eval)
  have n: "regex_match ''soon'' = None" "\<forall>c\<in>set ''soon''. \<not> is_digit c"
    by (simp_all add: parseDuration_eval)
  have v: "toLowerCase ''WEEK'' = ''week''" "parseInt ''3'' = 3" "parseInt ''5'' = 5"
    by (simp_all add: parseDuration_eval)
  have r: "safe_integer (7 * (parseInt ''3'' + parseInt ''5''))"
    "safe_integer (7 * (parseInt ''3'' + parseInt ''3''))"
    by (simp_all add: v safe_integer_def)
  from parseDuration_midpoint [OF h r, of "''s''" "''soon''"] n v show ?thesis by simp
qed

subsection \<open>The selection state\<close>

lemma findIndex_ge: "- 1 \<le> findIndex P xs"
  by (induction xs) (auto simp: Let_def)

lemma findIndex_none: "findIndex P xs = - 1 \<longleftrightarrow> (\<forall>x\<in>set xs. \<not> P x)"
proof (induction xs)
  case Nil
  then show ?case by simp
next
  case (Cons x xs)
  have "findIndex P xs + 1 \<noteq> - 1" using findIndex_ge [of P xs] by arith
  with Cons show ?case by (auto simp: Let_def)
qed

lemma addToProjectPlan_eq:
  "addToProjectPlan t plan =
     (if task_id t \<in> task_id ` set plan then plan else plan @ [t])"
proof -
  have "(\<forall>x\<in>set plan. task_id x \<noteq> task_id t) \<longleftrightarrow> task_id t \<notin> task_id ` set plan"
    by (metis image_iff)
  then show ?thesis by (simp add: addToProjectPlan_def Let_def findIndex_none)
qed

lemma removeFromProjectPlan_absent:
  "taskId \<notin> task_id ` set plan \<Longrightarrow> removeFromProjectPlan taskId plan = plan"
  by (auto simp: removeFromProjectPlan_def filter_id_conv)

lemma consistent_new: "consistent new_planner"
  by (simp add: consistent_def new_planner_def)

lemma consistent_step:
  assumes "consistent p"
  shows "consistent (fst (handleTaskSelection checked t p ls))"
proof (cases checked)
  case True
  with assms show ?thesis
    by (auto simp: consistent_def handleTaskSelection_def Let_def Set_add_def
        addToProjectPlan_eq)
next
  case False
  with assms show ?thesis
    by (auto simp: consistent_def handleTaskSelection_def Let_def Set_delete_def
        removeFromProjectPlan_def distinct_map_filter)
qed

lemma consistent_all:
  "consistent (fst s) \<Longrightarrow> consistent (fst (handle_all es s))"
proof (induction es arbitrary: s)
  case Nil
  then show ?case by simp
next
  case (Cons e es)
  obtain checked t where e: "e = (checked, t)" by (cases e)
  obtain p ls where s: "s = (p, ls)" by (cases s)
  from Cons.prems s have "consistent (fst (handleTaskSelection checked t p ls))"
    by (simp add: consistent_step)
  then have "consistent (fst (handle_all es (handleTaskSelection checked t p ls)))"
    by (rule Cons.IH)
  with e s show ?case by simp
qed

lemma one_entry_per_id:
  assumes "distinct (map task_id plan)" and "i \<in> task_id ` set plan"
  shows "length (filter (\<lambda>t. task_id t = i) plan) = 1"
  using assms
proof (induction plan)
  case Nil
  then show ?case by simp
next
  case (Cons t plan)
  show ?case
  proof (cases "task_id t = i")
    case True
    with Cons.prems have "i \<notin> task_id ` set plan" by simp
    then have "\<forall>u\<in>set plan. task_id u \<noteq> i" by (metis image_iff)
    then have "filter (\<lambda>t. task_id t = i) plan = []" by (simp add: filter_empty_conv)
    with True show ?thesis by simp
  next
    case False
    with Cons show ?thesis by auto
  qed
qed

lemmas selection_eval =
  handleTaskSelection_def Let_def Set_add_def Set_delete_def addToProjectPlan_def
  removeFromProjectPlan_def new_planner_def task_card_def

text \<open>
  Claim C2. After any sequence of selection events from the state the constructor builds,
  the ids of the plan are exactly the selected ids, no two plan entries share an id, every
  selected id has exactly one plan entry, and adding a task whose id the plan already has
  leaves the plan as it is.
\<close>

theorem plan_matches_selection:
  "task_id ` set (projectPlan (fst (handle_all events (new_planner, ls)))) =
     set (selectedTasks (fst (handle_all events (new_planner, ls)))) \<and>
   distinct (map task_id (projectPlan (fst (handle_all events (new_planner, ls))))) \<and>
   (\<forall>i\<in>set (selectedTasks (fst (handle_all events (new_planner, ls)))).
      length (filter (\<lambda>t. task_id t = i)
        (projectPlan (fst (handle_all events (new_planner, ls))))) = 1) \<and>
   (task_id t \<in> task_id ` set plan \<longrightarrow> addToProjectPlan t plan = plan)"
proof -
  let ?p = "fst (handle_all events (new_planner, ls))"
  have "consistent ?p" by (rule consistent_all) (simp add: consistent_new)
  then have a: "task_id ` set (projectPlan ?p) = set (selectedTasks ?p)"
    and b: "distinct (map task_id (projectPlan ?p))"
    by (simp_all add: consistent_def)
  have c: "\<forall>i\<in>set (selectedTasks ?p).
             length (filter (\<lambda>t. task_id t = i) (projectPlan ?p)) = 1"
    using a b one_entry_per_id by blast
  have d: "task_id t \<in> task_id ` set plan \<longrightarrow> addToProjectPlan t plan = plan"
    by (simp add: addToProjectPlan_eq)
  from a b c d show ?thesis by blast
qed

theorem plan_matches_selection_witness:
  "selectedTasks (fst (handle_all
       [(True, task_card ''a'' ''1 day'' ''x''), (True, task_card ''a'' ''2 days'' ''y''),
        (True, task_card ''b'' ''1 day'' ''x''), (False, task_card ''a'' ''1 day'' ''x''),
        (True, task_card ''a'' ''1 day'' ''x'')] (new_planner, Map.empty))) = [''b'', ''a''] \<and>
   length (filter (\<lambda>t. task_id t = ''a'') (projectPlan (fst (handle_all
       [(True, task_card ''a'' ''1 day'' ''x''), (True, task_card ''a'' ''2 days'' ''y''),
        (True, task_card ''b'' ''1 day'' ''x''), (False, task_card ''a'' ''1 day'' ''x''),
        (True, task_card ''a'' ''1 day'' ''x'')] (new_planner, Map.empty))))) = 1 \<and>
   addToProjectPlan (task_card ''a'' ''2 days'' ''y'') [task_card ''a'' ''1 day'' ''x''] =
     [task_card ''a'' ''1 day'' ''x'']"
proof -
  let ?es = "[(True, task_card ''a'' ''1 day'' ''x''), (True, task_card ''a'' ''2 days'' ''y''),
        (True, task_card ''b'' ''1 day'' ''x''), (False, task_card ''a'' ''1 day'' ''x''),
        (True, task_card ''a'' ''1 day'' ''x'')]"
  have s: "selectedTasks (fst (handle_all ?es (new_planner, Map.empty))) = [''b'', ''a'']"
    by (simp add: selection_eval)
  have m: "task_id (task_card ''a'' ''2 days'' ''y'') \<in> task_id ` set [task_card ''a'' ''1 day'' ''x'']"
    by (simp add: task_card_def)
  from plan_matches_selection [of ?es Map.empty "task_card ''a'' ''2 days'' ''y''"
      "[task_card ''a'' ''1 day'' ''x'']"] s m
  show ?thesis by simp
qed

text \<open>
  Claim C7, as the program has it. Selecting a task and then deselecting it gives back the
  state before the two events exactly when the task's id was neither selected nor the id
  of a plan entry. Selecting a task that is already selected changes nothing, so the
  deselection that follows removes it.
\<close>

theorem select_then_deselect:
  "fst (handleTaskSelection False t (fst (handleTaskSelection True t p ls))
         (snd (handleTaskSelection True t p ls))) = p \<longleftrightarrow>
   task_id t \<notin> set (selectedTasks p) \<and> task_id t \<notin> task_id ` set (projectPlan p)"
proof -
  let ?q = "fst (handleTaskSelection False t (fst (handleTaskSelection True t p ls))
         (snd (handleTaskSelection True t p ls)))"
  have sel: "selectedTasks ?q = filter (\<lambda>y. y \<noteq> task_id t) (selectedTasks p)"
    by (simp add: handleTaskSelection_def Let_def Set_add_def Set_delete_def)
  have plan: "projectPlan ?q = filter (\<lambda>u. task_id u \<noteq> task_id t) (projectPlan p)"
    by (simp add: handleTaskSelection_def Let_def addToProjectPlan_eq
        removeFromProjectPlan_def)
  have "?q = p \<longleftrightarrow> selectedTasks ?q = selectedTasks p \<and> projectPlan ?q = projectPlan p"
    by (cases p, cases ?q) auto
  also have "\<dots> \<longleftrightarrow> (\<forall>y\<in>set (selectedTasks p). y \<noteq> task_id t) \<and>
                    (\<forall>u\<in>set (projectPlan p). task_id u \<noteq> task_id t)"
    unfolding sel plan by (simp add: filter_id_conv)
  also have "\<dots> \<longleftrightarrow> task_id t \<notin> set (selectedTasks p) \<and>
                    task_id t \<notin> task_id ` set (projectPlan p)"
    by (auto simp: image_iff)
  finally show ?thesis .
qed

theorem select_then_deselect_witness:
  "fst (handleTaskSelection False (task_card ''b'' ''1 day'' ''x'')
         (fst (handleTaskSelection True (task_card ''b'' ''1 day'' ''x'')
                \<lparr>selectedTasks = [''a''], projectPlan = [task_card ''a'' ''1 day'' ''x'']\<rparr> Map.empty))
         (snd (handleTaskSelection True (task_card ''b'' ''1 day'' ''x'')
                \<lparr>selectedTasks = [''a''], projectPlan = [task_card ''a'' ''1 day'' ''x'']\<rparr> Map.empty)))
   = \<lparr>selectedTasks = [''a''], projectPlan = [task_card ''a'' ''1 day'' ''x'']\<rparr>"
  using select_then_deselect [of "task_card ''b'' ''1 day'' ''x''"
      "\<lparr>selectedTasks = [''a''], projectPlan = [task_card ''a'' ''1 day'' ''x'']\<rparr>" Map.empty]
  by (simp add: task_card_def)

text \<open>
  Claim C7 as stated fails for a task that is already selected: from the state with the
  one task \<open>a\<close> selected, selecting \<open>a\<close> and deselecting it ends in the empty state.
\<close>

theorem select_then_deselect_counterexample:
  "fst (handleTaskSelection False (task_card ''a'' ''1 day'' ''x'')
         (fst (handleTaskSelection True (task_card ''a'' ''1 day'' ''x'')
                \<lparr>selectedTasks = [''a''], projectPlan = [task_card ''a'' ''1 day'' ''x'']\<rparr> (map_of [])))
         (snd (handleTaskSelection True (task_card ''a'' ''1 day'' ''x'')
                \<lparr>selectedTasks = [''a''], projectPlan = [task_card ''a'' ''1 day'' ''x'']\<rparr> (map_of []))))
   \<noteq> \<lparr>selectedTasks = [''a''], projectPlan = [task_card ''a'' ''1 day'' ''x'']\<rparr>"
  by (simp add: selection_eval)

subsection \<open>The timeline\<close>
















subsection \<open>Category names\<close>

lemma replace_first_hit:
  "a \<notin> set p \<Longrightarrow> replace_first a b (p @ a # q) = p @ b # q"
  by (induction p) auto

lemma replace_first_miss: "a \<notin> set cs \<Longrightarrow> replace_first a b cs = cs"
  by (induction cs) auto

lemma formatCategoryName_Cons:
  "formatCategoryName (c # cs) = toUpperCase1 c # replace_first (CHR ''-'') (CHR '' '') cs"
  by (simp add: formatCategoryName_def toUpperCase_def)

lemma replace_first_length: "length (replace_first a b cs) = length cs"
  by (induction cs) auto

text \<open>
  Claim C10, as the program has it. Every category heading of the three renderers is
  \<^const>\<open>formatCategoryName\<close> of the bucket's key. The result ends with the name without
  its first character, in which the first hyphen is replaced by a space: the first
  character is not searched, so a leading hyphen stays, and every hyphen after the replaced
  one stays. In front of it stands the first character in upper case (stated for an ASCII
  first character, where \<^const>\<open>toUpperCase1\<close> is the program's mapping).
\<close>

theorem formatCategoryName_first_hyphen_of_rest:
  "formatCategoryName [] = [] \<and>
   drop (length (formatCategoryName (c # cs)) - length cs) (formatCategoryName (c # cs)) =
     replace_first (CHR ''-'') (CHR '' '') cs \<and>
   (CHR ''-'' \<notin> set p \<longrightarrow>
      replace_first (CHR ''-'') (CHR '' '') (p @ CHR ''-'' # q) = p @ CHR '' '' # q) \<and>
   (CHR ''-'' \<notin> set cs \<longrightarrow> replace_first (CHR ''-'') (CHR '' '') cs = cs) \<and>
   ((of_char c :: nat) < 128 \<and> CHR ''-'' \<notin> set p \<longrightarrow>
      formatCategoryName (c # p @ CHR ''-'' # q) = toUpperCase1 c # p @ CHR '' '' # q) \<and>
   ((of_char c :: nat) < 128 \<and> CHR ''-'' \<notin> set cs \<longrightarrow>
      formatCategoryName (c # cs) = toUpperCase1 c # cs) \<and>
   toUpperCase1 (CHR ''-'') = CHR ''-'' \<and>
   map toUpperCase1 ''abcdefghijklmnopqrstuvwxyz'' = ''ABCDEFGHIJKLMNOPQRSTUVWXYZ'' \<and>
   formatCategoryName ''user-research'' = ''User research'' \<and>
   formatCategoryName ''a-b-c'' = ''A b-c'' \<and>
   generatePlanHTML_headings byCategory =
     map (\<lambda>k. ''<h3>'' @ formatCategoryName k @ ''</h3>'') (Object_keys byCategory) \<and>
   generateEmailBody_headings byCategory =
     map (\<lambda>k. formatCategoryName k @ '':'') (Object_keys byCategory) \<and>
   generatePDFHTML_headings byCategory =
     map (\<lambda>k. ''<h3>'' @ formatCategoryName k @ ''</h3>'') (Object_keys byCategory)"
proof -
  have a: "formatCategoryName [] = []"
    by (simp add: formatCategoryName_def toUpperCase_def)
  have s: "drop (length (formatCategoryName (c # cs)) - length cs)
             (formatCategoryName (c # cs)) = replace_first (CHR ''-'') (CHR '' '') cs"
    by (simp add: formatCategoryName_Cons replace_first_length)
  have b: "CHR ''-'' \<notin> set p \<longrightarrow>
      replace_first (CHR ''-'') (CHR '' '') (p @ CHR ''-'' # q) = p @ CHR '' '' # q"
    by (simp add: replace_first_hit)
  have c: "CHR ''-'' \<notin> set cs \<longrightarrow> replace_first (CHR ''-'') (CHR '' '') cs = cs"
    by (simp add: replace_first_miss)
  have b': "(of_char c :: nat) < 128 \<and> CHR ''-'' \<notin> set p \<longrightarrow>
      formatCategoryName (c # p @ CHR ''-'' # q) = toUpperCase1 c # p @ CHR '' '' # q"
    by (simp add: formatCategoryName_Cons replace_first_hit)
  have c': "(of_char c :: nat) < 128 \<and> CHR ''-'' \<notin> set cs \<longrightarrow>
      formatCategoryName (c # cs) = toUpperCase1 c # cs"
    by (simp add: formatCategoryName_Cons replace_first_miss)
  have d: "toUpperCase1 (CHR ''-'') = CHR ''-''"
    "map toUpperCase1 ''abcdefghijklmnopqrstuvwxyz'' = ''ABCDEFGHIJKLMNOPQRSTUVWXYZ''"
    by (simp_all add: toUpperCase1_def)
  have e: "formatCategoryName ''user-research'' = ''User research''"
    "formatCategoryName ''a-b-c'' = ''A b-c''"
    by (simp_all add: formatCategoryName_def toUpperCase_def toUpperCase1_def)
  have f: "generatePlanHTML_headings byCategory =
     map (\<lambda>k. ''<h3>'' @ formatCategoryName k @ ''</h3>'') (Object_keys byCategory)"
    "generateEmailBody_headings byCategory =
     map (\<lambda>k. formatCategoryName k @ '':'') (Object_keys byCategory)"
    "generatePDFHTML_headings byCategory =
     map (\<lambda>k. ''<h3>'' @ formatCategoryName k @ ''</h3>'') (Object_keys byCategory)"
    by (simp_all add: generatePlanHTML_headings_def generateEmailBody_headings_def
        generatePDFHTML_headings_def Object_keys_def case_prod_beta)
  from a s b c b' c' d e f show ?thesis by blast
qed

theorem formatCategoryName_first_hyphen_of_rest_witness:
  "formatCategoryName ''ux-design-review'' = ''Ux design-review'' \<and>
   formatCategoryName ''general'' = ''General''"
proof -
  have u: "toUpperCase1 (CHR ''u'') = CHR ''U''" "toUpperCase1 (CHR ''g'') = CHR ''G''"
    by (simp_all add: toUpperCase1_def)
  have h: "CHR ''-'' \<notin> set ''x''" "CHR ''-'' \<notin> set ''eneral''"
    "(of_char (CHR ''u'') :: nat) < 128" "(of_char (CHR ''g'') :: nat) < 128" by simp_all
  from formatCategoryName_first_hyphen_of_rest
    [where p = "''x''" and c = "CHR ''u''" and q = "''design-review''" and cs = "''eneral''"]
    formatCategoryName_first_hyphen_of_rest
    [where p = "''x''" and c = "CHR ''g''" and q = "''design-review''" and cs = "''eneral''"] u h
  show ?thesis by simp
qed

text \<open>
  Claim C10 as stated fails for a name that starts with a hyphen: in \<^verbatim>\<open>-a-b\<close> the first
  hyphen stays and the second one is replaced.
\<close>

theorem formatCategoryName_leading_hyphen_counterexample:
  "formatCategoryName ''-a-b'' = ''-a b'' \<and> formatCategoryName ''-a-b'' ! 2 \<noteq> CHR ''-''"
  by (simp add: formatCategoryName_def toUpperCase_def toUpperCase1_def)

subsection \<open>Grouping by category\<close>

lemma first_seen_snoc:
  "first_seen (xs @ [x]) = (if x \<in> set xs then first_seen xs else first_seen xs @ [x])"
  by (simp add: first_seen_def)

lemma set_first_seen: "set (first_seen xs) = set xs"
  by (simp add: first_seen_def)

lemma distinct_first_seen: "distinct (first_seen xs)"
  by (simp add: first_seen_def)

lemma map_of_tabulate:
  "map_of (map (\<lambda>c. (c, f c)) cs) k = (if k \<in> set cs then Some (f k) else None)"
  by (induction cs) auto

lemma groupTasksByCategory_snoc:
  "groupTasksByCategory (plan @ [t]) = group_step (groupTasksByCategory plan) t"
  by (simp add: groupTasksByCategory_def)

lemma grouped_spec_seen:
  assumes "category t \<in> category ` set plan"
  shows "map (\<lambda>(k, b). if k = category t then (k, b @ [t]) else (k, b)) (grouped_spec plan) =
         grouped_spec (plan @ [t])"
proof -
  from assms have "first_seen (map category (plan @ [t])) = first_seen (map category plan)"
    by (simp add: first_seen_snoc)
  then show ?thesis by (auto simp: grouped_spec_def)
qed

lemma grouped_spec_new:
  assumes "category t \<notin> category ` set plan"
  shows "grouped_spec plan @ [(category t, [t])] = grouped_spec (plan @ [t])"
proof -
  from assms have fs: "first_seen (map category (plan @ [t])) =
                   first_seen (map category plan) @ [category t]"
    by (simp add: first_seen_snoc)
  from assms have "\<forall>u\<in>set plan. category u \<noteq> category t" by (metis image_iff)
  then have empty: "filter (\<lambda>u. category u = category t) plan = []"
    by (simp add: filter_empty_conv)
  from assms have "category t \<notin> set (first_seen (map category plan))"
    by (simp add: set_first_seen)
  then have "\<forall>c\<in>set (first_seen (map category plan)). c \<noteq> category t"
    by blast
  then have "map (\<lambda>c. (c, filter (\<lambda>u. category u = c) (plan @ [t])))
               (first_seen (map category plan)) =
             map (\<lambda>c. (c, filter (\<lambda>u. category u = c) plan)) (first_seen (map category plan))"
    by auto
  with fs empty show ?thesis by (simp add: grouped_spec_def)
qed

lemma groupTasksByCategory_grouped:
  "\<forall>t\<in>set plan. category t \<notin> set Object_prototype_keys \<Longrightarrow>
   groupTasksByCategory plan = Inr (grouped_spec plan)"
proof (induction plan rule: rev_induct)
  case Nil
  then show ?case by (simp add: groupTasksByCategory_def grouped_spec_def first_seen_def)
next
  case (snoc t plan)
  then have IH: "groupTasksByCategory plan = Inr (grouped_spec plan)"
    and ok: "category t \<notin> set Object_prototype_keys" by simp_all
  have look: "map_of (grouped_spec plan) (category t) =
        (if category t \<in> category ` set plan
         then Some (filter (\<lambda>u. category u = category t) plan) else None)"
    by (simp add: grouped_spec_def map_of_tabulate set_first_seen)
  show ?case
  proof (cases "category t \<in> category ` set plan")
    case True
    with look IH show ?thesis
      by (simp add: groupTasksByCategory_snoc group_step_def grouped_spec_seen)
  next
    case False
    with look IH ok show ?thesis
      by (simp add: groupTasksByCategory_snoc group_step_def grouped_spec_new)
  qed
qed

lemma map_fst_insort_key:
  "map fst (insort_key (\<lambda>(k, v). g k) x xs) = insort_key g (fst x) (map fst xs)"
  by (induction xs) (auto simp: case_prod_beta)

lemma map_fst_sort_key:
  "map fst (sort_key (\<lambda>(k, v). g k) xs) = sort_key g (map fst xs)"
  by (induction xs) (simp_all add: map_fst_insort_key)

lemma map_fst_filter_tabulate:
  "map fst (filter (\<lambda>(k, v). P k) (map (\<lambda>c. (c, f c)) cs)) = filter P cs"
  by (induction cs) auto

lemma Object_keys_grouped:
  "Object_keys (grouped_spec plan) =
     sort_key parseInt (filter is_array_index (first_seen (map category plan))) @
     filter (\<lambda>c. \<not> is_array_index c) (first_seen (map category plan))"
  by (simp add: Object_keys_def Object_entries_def grouped_spec_def map_fst_sort_key
      map_fst_filter_tabulate)

lemma Object_entries_no_index:
  "\<forall>(k, v)\<in>set obj. \<not> is_array_index k \<Longrightarrow> Object_entries obj = obj"
proof -
  assume a: "\<forall>(k, v)\<in>set obj. \<not> is_array_index k"
  then have "filter (\<lambda>(k, v). is_array_index k) obj = []"
    by (auto simp: filter_empty_conv)
  moreover from a have "filter (\<lambda>(k, v). \<not> is_array_index k) obj = obj"
    by (auto simp: filter_id_conv)
  ultimately show ?thesis by (simp add: Object_entries_def)
qed

lemma Object_entries_set: "set (Object_entries obj) = set obj"
  by (auto simp: Object_entries_def)

lemmas group_eval =
  groupTasksByCategory_def group_step_def task_card_def Object_prototype_keys_def
  Object_keys_def Object_entries_def is_array_index_def is_digit_def parseInt_def
  first_seen_def grouped_spec_def

text \<open>
  Claim C4, as the program has it. For a plan none of whose categories names a property
  inherited from \<^verbatim>\<open>Object.prototype\<close>, the result has one bucket per category, each bucket
  holds exactly the tasks of its category in plan order, and the buckets are created in
  first-occurrence order. \<^verbatim>\<open>Object.entries\<close> and \<^verbatim>\<open>Object.keys\<close>, which the renderers
  use, list them in that order when no category is an array index; categories that are
  array indices come first, in ascending numeric order. The categories x, y, x, z give
  the bucket order x, y, z.
\<close>

theorem groupTasksByCategory_buckets:
  assumes "\<forall>t\<in>set plan. category t \<notin> set Object_prototype_keys"
  shows "groupTasksByCategory plan = Inr (grouped_spec plan) \<and>
         (\<forall>(c, b)\<in>set (Object_entries (grouped_spec plan)).
            b = filter (\<lambda>t. category t = c) plan) \<and>
         set (Object_keys (grouped_spec plan)) = category ` set plan \<and>
         Object_keys (grouped_spec plan) =
           sort_key parseInt (filter is_array_index (first_seen (map category plan))) @
           filter (\<lambda>c. \<not> is_array_index c) (first_seen (map category plan)) \<and>
         ((\<forall>t\<in>set plan. \<not> is_array_index (category t)) \<longrightarrow>
            Object_entries (grouped_spec plan) = grouped_spec plan \<and>
            Object_keys (grouped_spec plan) = first_seen (map category plan)) \<and>
         map_sum id Object_keys (groupTasksByCategory
           [task_card ''A'' ''1 day'' ''x'', task_card ''B'' ''1 day'' ''y'',
            task_card ''C'' ''1 day'' ''x'', task_card ''D'' ''1 day'' ''z'']) =
           Inr [''x'', ''y'', ''z'']"
proof -
  have a: "groupTasksByCategory plan = Inr (grouped_spec plan)"
    using assms by (rule groupTasksByCategory_grouped)
  have b: "\<forall>(c, b)\<in>set (Object_entries (grouped_spec plan)).
            b = filter (\<lambda>t. category t = c) plan"
    by (auto simp: Object_entries_set grouped_spec_def)
  have k: "Object_keys (grouped_spec plan) =
           sort_key parseInt (filter is_array_index (first_seen (map category plan))) @
           filter (\<lambda>c. \<not> is_array_index c) (first_seen (map category plan))"
    by (rule Object_keys_grouped)
  have c: "set (Object_keys (grouped_spec plan)) = category ` set plan"
    unfolding k by (auto simp: set_first_seen)
  have d: "(\<forall>t\<in>set plan. \<not> is_array_index (category t)) \<longrightarrow>
            Object_entries (grouped_spec plan) = grouped_spec plan \<and>
            Object_keys (grouped_spec plan) = first_seen (map category plan)"
  proof
    assume n: "\<forall>t\<in>set plan. \<not> is_array_index (category t)"
    then have "\<forall>(k, v)\<in>set (grouped_spec plan). \<not> is_array_index k"
      by (auto simp: grouped_spec_def set_first_seen)
    then have e: "Object_entries (grouped_spec plan) = grouped_spec plan"
      by (rule Object_entries_no_index)
    then have "Object_keys (grouped_spec plan) = first_seen (map category plan)"
      by (simp add: Object_keys_def grouped_spec_def comp_def)
    with e show "Object_entries (grouped_spec plan) = grouped_spec plan \<and>
            Object_keys (grouped_spec plan) = first_seen (map category plan)" by simp
  qed
  have e: "map_sum id Object_keys (groupTasksByCategory
           [task_card ''A'' ''1 day'' ''x'', task_card ''B'' ''1 day'' ''y'',
            task_card ''C'' ''1 day'' ''x'', task_card ''D'' ''1 day'' ''z'']) =
           Inr [''x'', ''y'', ''z'']"
    by (simp add: group_eval)
  from a b c k d e show ?thesis by blast
qed

theorem groupTasksByCategory_buckets_witness:
  "groupTasksByCategory
     [task_card ''A'' ''1 day'' ''research'', task_card ''B'' ''1 day'' ''design'',
      task_card ''C'' ''1 day'' ''research''] =
   Inr [(''research'', [task_card ''A'' ''1 day'' ''research'',
                        task_card ''C'' ''1 day'' ''research'']),
        (''design'', [task_card ''B'' ''1 day'' ''design''])] \<and>
   Object_keys (grouped_spec
     [task_card ''A'' ''1 day'' ''research'', task_card ''B'' ''1 day'' ''design'',
      task_card ''C'' ''1 day'' ''research'']) = [''research'', ''design'']"
proof -
  let ?plan = "[task_card ''A'' ''1 day'' ''research'', task_card ''B'' ''1 day'' ''design'',
      task_card ''C'' ''1 day'' ''research'']"
  have h: "\<forall>t\<in>set ?plan. category t \<notin> set Object_prototype_keys"
    by (simp add: task_card_def Object_prototype_keys_def)
  have n: "\<forall>t\<in>set ?plan. \<not> is_array_index (category t)"
    by (simp add: task_card_def is_array_index_def is_digit_def)
  have g: "grouped_spec ?plan =
     [(''research'', [task_card ''A'' ''1 day'' ''research'',
                        task_card ''C'' ''1 day'' ''research'']),
        (''design'', [task_card ''B'' ''1 day'' ''design''])]"
    by (simp add: grouped_spec_def first_seen_def task_card_def)
  have f: "first_seen (map category ?plan) = [''research'', ''design'']"
    by (simp add: first_seen_def task_card_def)
  note t = groupTasksByCategory_buckets [OF h]
  from t have 1: "groupTasksByCategory ?plan = Inr (grouped_spec ?plan)" by blast
  from t n have 2: "Object_keys (grouped_spec ?plan) = first_seen (map category ?plan)"
    by blast
  from 1 2 show ?thesis unfolding g f by blast
qed

text \<open>
  Claim C4 as stated fails for a category that is an array index: with the categories
  \<^verbatim>\<open>b\<close> and \<^verbatim>\<open>1\<close> in this order, the buckets are listed as \<^verbatim>\<open>1\<close>, \<^verbatim>\<open>b\<close>.
\<close>

theorem groupTasksByCategory_index_counterexample:
  "map_sum id Object_keys (groupTasksByCategory
     [task_card ''A'' ''1 day'' ''b'', task_card ''B'' ''1 day'' ''1'']) = Inr [''1'', ''b''] \<and>
   first_seen (map category [task_card ''A'' ''1 day'' ''b'', task_card ''B'' ''1 day'' ''1''])
     = [''b'', ''1'']"
  by (simp add: group_eval)

subsection \<open>Plan generation\<close>

lemma generateProjectPlan_rejects:
  "selectedTasks this = [] \<Longrightarrow>
   generateProjectPlan today this =
     Inr (Alert ''Please select at least one task to create a project plan.'')"
  by (simp add: generateProjectPlan_def)

lemma generateProjectPlan_builds:
  assumes "selectedTasks this \<noteq> []"
    and "\<forall>t\<in>set (projectPlan this). category t \<notin> set Object_prototype_keys"
  shows "generateProjectPlan today this =
     Inr (PlanModal (createPlanDocument today (projectPlan this)
            (grouped_spec (projectPlan this)) (generateTimeline (projectPlan this))))"
  using assms by (simp add: generateProjectPlan_def groupTasksByCategory_grouped)

text \<open>
  Claim C5. With nothing selected the request is answered by the alert and no document is
  built. With a task selected whose category is \<^verbatim>\<open>constructor\<close>, generation does not
  build a document either: \<^verbatim>\<open>categories[task.category]\<close> finds the inherited function, no
  bucket is created, and \<^verbatim>\<open>push\<close> on it raises a TypeError.
\<close>

theorem generateProjectPlan_constructor_category:
  "generateProjectPlan today
     \<lparr>selectedTasks = [''t1''],
      projectPlan = [task_card ''t1'' ''1-2 days'' ''constructor'']\<rparr> = Inl TypeError \<and>
   generateProjectPlan today \<lparr>selectedTasks = [], projectPlan = []\<rparr> =
     Inr (Alert ''Please select at least one task to create a project plan.'')"
  by (simp add: generateProjectPlan_def group_eval)

subsection \<open>Persistence\<close>

lemma hex_round: "list_all (\<lambda>k. hex_val (hex_digit k) = Some k) [0..<16]"
  by code_simp

lemma hex_val_hex_digit: "k < 16 \<Longrightarrow> hex_val (hex_digit k) = Some k"
  using hex_round by (simp add: list_all_iff)

lemma unicode_escape_low:
  assumes "(of_char c :: nat) < 32"
  shows "unicode_escape (CHR ''0'') (CHR ''0'') (hex_digit (of_char c div 16))
           (hex_digit (of_char c mod 16)) = Some (of_char c)"
proof -
  have z: "hex_val (CHR ''0'') = Some 0" by (simp add: hex_val_def)
  have a: "hex_val (hex_digit (of_char c div 16)) = Some (of_char c div 16)"
    using assms by (intro hex_val_hex_digit) simp
  have b: "hex_val (hex_digit (of_char c mod 16)) = Some (of_char c mod 16)"
    by (intro hex_val_hex_digit) simp
  show ?thesis by (simp add: unicode_escape_def z a b)
qed

lemma lex_string_escape_char:
  "lex_string acc (escape_char c @ r) = lex_string (of_char c # acc) r"
proof -
  consider (dq) "c = CHR 0x22" | (bs) "c = CHR 0x5C" | (b) "c = CHR 0x08" | (f) "c = CHR 0x0C"
    | (n) "c = CHR 0x0A" | (r) "c = CHR 0x0D" | (t) "c = CHR 0x09"
    | (ctl) "c \<notin> {CHR 0x22, CHR 0x5C, CHR 0x08, CHR 0x0C, CHR 0x0A, CHR 0x0D, CHR 0x09}"
        "(of_char c :: nat) < 32"
    | (plain) "c \<notin> {CHR 0x22, CHR 0x5C, CHR 0x08, CHR 0x0C, CHR 0x0A, CHR 0x0D, CHR 0x09}"
        "\<not> (of_char c :: nat) < 32"
    by blast
  then show ?thesis
  proof cases
    case ctl
    then show ?thesis
      by (simp add: escape_char_def unicode_escape_low)
  next
    case plain
    then show ?thesis by (simp add: escape_char_def)
  qed (simp_all add: escape_char_def simple_escape_def)
qed

lemma lex_string_quoted:
  "lex_string acc (concat (map escape_char s) @ CHR 0x22 # rest) =
     Parsed (rev acc @ units s, rest)"
  by (induction s arbitrary: acc) (simp_all add: lex_string_escape_char units_def)

lemma tokenize_punct:
  assumes "next_token (c # r) = Parsed (t, r)" and "\<not> is_json_ws c"
  shows "tokenize (c # r) = map_parsed ((#) t) (tokenize r)"
  using assms by (subst tokenize.simps) simp

lemma tokenize_simple [simp]:
  "tokenize (CHR ''['' # r) = map_parsed ((#) TLBracket) (tokenize r)"
  "tokenize (CHR '']'' # r) = map_parsed ((#) TRBracket) (tokenize r)"
  "tokenize (CHR ''{'' # r) = map_parsed ((#) TLBrace) (tokenize r)"
  "tokenize (CHR ''}'' # r) = map_parsed ((#) TRBrace) (tokenize r)"
  "tokenize (CHR '','' # r) = map_parsed ((#) TComma) (tokenize r)"
  "tokenize (CHR '':'' # r) = map_parsed ((#) TColon) (tokenize r)"
  by (rule tokenize_punct; simp add: next_token_def is_json_ws_def)+

lemma tokenize_Nil [simp]: "tokenize [] = Parsed []"
  by (subst tokenize.simps) simp

lemma tokenize_quote [simp]:
  "tokenize (quote s @ r) = map_parsed ((#) (TString (units s))) (tokenize r)"
proof -
  have "next_token (quote s @ r) = Parsed (TString (units s), r)"
    by (simp add: next_token_def quote_def lex_string_quoted)
  moreover have "dropWhile is_json_ws (quote s @ r) = quote s @ r"
    by (simp add: quote_def is_json_ws_def)
  moreover obtain c cs where "quote s @ r = c # cs" by (simp add: quote_def)
  ultimately show ?thesis by (subst tokenize.simps) simp
qed

lemma tokenize_task:
  "tokenize (stringify_task t @ r) = map_parsed (\<lambda>ts. task_tokens t @ ts) (tokenize r)"
  by (simp add: stringify_task_def task_tokens_def parsed.map_comp comp_def)

lemma tokenize_tasks:
  "tokenize (join '','' (map stringify_task plan) @ r) =
     map_parsed (\<lambda>ts. plan_tokens plan @ ts) (tokenize r)"
proof (induction plan rule: plan_tokens.induct)
  case 1
  show ?case by (simp add: parsed.map_ident)
next
  case (2 t)
  show ?case by (simp add: tokenize_task)
next
  case (3 t u us)
  then show ?case by (simp add: tokenize_task parsed.map_comp comp_def)
qed

lemma tokenize_plan:
  "tokenize (stringify_plan plan) = Parsed (TLBracket # plan_tokens plan @ [TRBracket])"
  using tokenize_tasks [of plan "'']''"] by (simp add: stringify_plan_def)

lemma tokenize_id_list:
  "tokenize (join '','' (map quote ids) @ r) =
     map_parsed (\<lambda>ts. id_tokens ids @ ts) (tokenize r)"
proof (induction ids rule: id_tokens.induct)
  case 1
  show ?case by (simp add: parsed.map_ident)
next
  case (2 i)
  show ?case by simp
next
  case (3 i j js)
  then show ?case by (simp add: parsed.map_comp comp_def)
qed

lemma tokenize_ids:
  "tokenize (stringify_ids ids) = Parsed (TLBracket # id_tokens ids @ [TRBracket])"
  using tokenize_id_list [of ids "'']''"] by (simp add: stringify_ids_def)

lemma prun_append:
  "prun (xs @ ys) c = (case prun xs c of None \<Rightarrow> None | Some c' \<Rightarrow> prun ys c')"
  by (induction xs arbitrary: c) (auto split: option.splits)

lemma prun_task:
  "prun (task_tokens t) (ExpValue, st) = Some (reduce (json_of_task t) st)"
  by (simp add: task_tokens_def json_of_task_def)

lemma prun_tasks:
  "plan \<noteq> [] \<Longrightarrow>
   prun (plan_tokens plan) (ExpValue, CArray es # st) =
     Some (ArrNext (es @ map json_of_task plan), st)"
proof (induction plan arbitrary: es rule: plan_tokens.induct)
  case 1
  then show ?case by simp
next
  case (2 t)
  show ?case by (simp add: prun_task)
next
  case (3 t u us)
  then show ?case by (simp add: prun_append prun_task)
qed

lemma prun_ids:
  "ids \<noteq> [] \<Longrightarrow>
   prun (id_tokens ids) (ExpValue, CArray es # st) =
     Some (ArrNext (es @ map (\<lambda>i. JString (units i)) ids), st)"
proof (induction ids arbitrary: es rule: id_tokens.induct)
  case 1
  then show ?case by simp
next
  case (2 i)
  show ?case by simp
next
  case (3 i j js)
  then show ?case by simp
qed

lemma prun_array:
  assumes "\<And>es st. xs \<noteq> [] \<Longrightarrow> prun toks (ExpValue, CArray es # st) = Some (ArrNext (es @ xs), st)"
    and "xs = [] \<Longrightarrow> toks = []"
    and "xs \<noteq> [] \<Longrightarrow> hd toks \<noteq> TRBracket \<and> toks \<noteq> []"
  shows "prun (TLBracket # toks @ [TRBracket]) (ExpValue, []) = Some (Finished (JArray xs), [])"
proof (cases "xs = []")
  case True
  with assms(2) show ?thesis by simp
next
  case False
  with assms(3) obtain t ts where toks: "toks = t # ts" and t: "t \<noteq> TRBracket"
    by (cases toks) auto
  have "prun (TLBracket # toks @ [TRBracket]) (ExpValue, []) =
        prun (toks @ [TRBracket]) (ArrOpen, [])" by simp
  also have "\<dots> = prun (toks @ [TRBracket]) (ExpValue, [CArray []])"
    using t by (simp add: toks)
  also have "\<dots> = Some (Finished (JArray xs), [])"
    using assms(1) [OF False, of "[]" "[]"] by (simp add: prun_append)
  finally show ?thesis .
qed

lemma JSON_parse_plan:
  "JSON_parse (stringify_plan plan) = Parsed (JArray (map json_of_task plan))"
proof -
  have "prun (TLBracket # plan_tokens plan @ [TRBracket]) (ExpValue, []) =
        Some (Finished (JArray (map json_of_task plan)), [])"
  proof (rule prun_array)
    show "map json_of_task plan = [] \<Longrightarrow> plan_tokens plan = []" by simp
    show "map json_of_task plan \<noteq> [] \<Longrightarrow> hd (plan_tokens plan) \<noteq> TRBracket \<and> plan_tokens plan \<noteq> []"
      by (induction plan rule: plan_tokens.induct) (simp_all add: task_tokens_def)
    show "\<And>es st. map json_of_task plan \<noteq> [] \<Longrightarrow>
       prun (plan_tokens plan) (ExpValue, CArray es # st) = Some (ArrNext (es @ map json_of_task plan), st)"
      by (simp add: prun_tasks)
  qed
  then show ?thesis by (simp add: JSON_parse_def tokenize_plan)
qed

lemma JSON_parse_ids:
  "JSON_parse (stringify_ids ids) = Parsed (JArray (map (\<lambda>i. JString (units i)) ids))"
proof -
  have "prun (TLBracket # id_tokens ids @ [TRBracket]) (ExpValue, []) =
        Some (Finished (JArray (map (\<lambda>i. JString (units i)) ids)), [])"
  proof (rule prun_array)
    show "map (\<lambda>i. JString (units i)) ids = [] \<Longrightarrow> id_tokens ids = []" by simp
    show "map (\<lambda>i. JString (units i)) ids \<noteq> [] \<Longrightarrow>
          hd (id_tokens ids) \<noteq> TRBracket \<and> id_tokens ids \<noteq> []"
      by (induction ids rule: id_tokens.induct) simp_all
    show "\<And>es st. map (\<lambda>i. JString (units i)) ids \<noteq> [] \<Longrightarrow>
       prun (id_tokens ids) (ExpValue, CArray es # st) =
         Some (ArrNext (es @ map (\<lambda>i. JString (units i)) ids), st)"
      by (simp add: prun_ids)
  qed
  then show ?thesis by (simp add: JSON_parse_def tokenize_ids)
qed

lemma string_of_units_units: "string_of_units (units s) = Some s"
proof -
  have "list_all (\<lambda>u. u < 256) (units s)"
    by (simp add: units_def list_all_iff)
  moreover have "map char_of (units s) = s"
    by (simp add: units_def comp_def)
  ultimately show ?thesis by (simp add: string_of_units_def)
qed

lemma task_of_json_of_task: "task_of_json (json_of_task t) = Some t"
proof -
  have k: "units ''id'' = [105, 100]" "units ''title'' = [116, 105, 116, 108, 101]"
    "units ''description'' = [100, 101, 115, 99, 114, 105, 112, 116, 105, 111, 110]"
    "units ''duration'' = [100, 117, 114, 97, 116, 105, 111, 110]"
    "units ''difficulty'' = [100, 105, 102, 102, 105, 99, 117, 108, 116, 121]"
    "units ''category'' = [99, 97, 116, 101, 103, 111, 114, 121]"
    by (simp_all add: units_def)
  have f: "field (case json_of_task t of JObject ms \<Rightarrow> ms | _ \<Rightarrow> []) ''id'' = Some (task_id t)"
    "field (case json_of_task t of JObject ms \<Rightarrow> ms | _ \<Rightarrow> []) ''title'' = Some (title t)"
    "field (case json_of_task t of JObject ms \<Rightarrow> ms | _ \<Rightarrow> []) ''description'' =
       Some (description t)"
    "field (case json_of_task t of JObject ms \<Rightarrow> ms | _ \<Rightarrow> []) ''duration'' =
       Some (duration t)"
    "field (case json_of_task t of JObject ms \<Rightarrow> ms | _ \<Rightarrow> []) ''difficulty'' =
       Some (difficulty t)"
    "field (case json_of_task t of JObject ms \<Rightarrow> ms | _ \<Rightarrow> []) ''category'' =
       Some (category t)"
    unfolding json_of_task_def field_def k
    by (simp_all add: string_value_def string_of_units_units)
  then show ?thesis
    unfolding task_of_json_def json_of_task_def by (simp add: json_of_task_def)
qed

lemma plan_of_json_plan: "plan_of_json (JArray (map json_of_task plan)) = Some plan"
  by (induction plan) (simp_all add: plan_of_json_def task_of_json_of_task)

lemma ids_of_json_ids: "ids_of_json (map (\<lambda>i. JString (units i)) ids) = Some ids"
  by (induction ids) (simp_all add: ids_of_json_def string_value_def string_of_units_units)

lemma stringify_nonempty: "stringify_plan plan \<noteq> []" "stringify_ids ids \<noteq> []"
  by (simp_all add: stringify_plan_def stringify_ids_def)

lemma savePlan_get:
  "savePlan this ls ''uxProjectPlan'' = Some (stringify_plan (projectPlan this))"
  "savePlan this ls ''uxSelectedTasks'' = Some (stringify_ids (selectedTasks this))"
  by (simp_all add: savePlan_def)

lemma load_plan_saved:
  "load_plan (Some (stringify_plan plan)) plan0 = Normal (JArray (map json_of_task plan))"
  by (simp add: load_plan_def stringify_nonempty JSON_parse_plan)

lemma load_plan_falsy:
  "savedPlan \<in> {None, Some []} \<Longrightarrow> load_plan savedPlan plan0 = Normal plan0"
  by (auto simp: load_plan_def)

lemma load_plan_syntax:
  "text \<noteq> [] \<Longrightarrow> JSON_parse text = SyntaxError \<Longrightarrow> load_plan (Some text) plan0 = Throw plan0"
  by (simp add: load_plan_def)

lemma load_plan_parsed:
  "text \<noteq> [] \<Longrightarrow> JSON_parse text = Parsed j \<Longrightarrow> load_plan (Some text) plan0 = Normal j"
  by (simp add: load_plan_def)

lemma load_tasks_falsy:
  "savedTasks \<in> {None, Some []} \<Longrightarrow> load_tasks selector_ok savedTasks = Normal []"
  by (auto simp: load_tasks_def)

lemma load_tasks_syntax:
  "text \<noteq> [] \<Longrightarrow> JSON_parse text = SyntaxError \<Longrightarrow>
   load_tasks selector_ok (Some text) = Throw []"
  by (simp add: load_tasks_def)

lemma loaded_plan_eq:
  "loaded_plan (loadSavedPlan selector_ok localStorage this) =
     (case load_plan (localStorage ''uxProjectPlan'') (JArray (map json_of_task (projectPlan this)))
      of Normal plan \<Rightarrow> plan | Throw plan \<Rightarrow> plan)"
  by (simp add: loadSavedPlan_def split: completion.splits)

lemma added_eq:
  "added (loadSavedPlan selector_ok localStorage this) =
     (case load_plan (localStorage ''uxProjectPlan'') (JArray (map json_of_task (projectPlan this)))
      of Normal plan \<Rightarrow>
           (case load_tasks selector_ok (localStorage ''uxSelectedTasks'')
            of Normal a \<Rightarrow> a | Throw a \<Rightarrow> a)
       | Throw plan \<Rightarrow> [])"
  by (simp add: loadSavedPlan_def split: completion.splits)

lemma add_ids_prefix: "\<exists>n. fst (add_ids selector_ok vs) = take n vs"
proof (induction vs)
  case Nil
  show ?case by simp
next
  case (Cons v vs)
  then obtain n where n: "fst (add_ids selector_ok vs) = take n vs" by blast
  show ?case
  proof (cases "selector_ok v")
    case True
    with n have "fst (add_ids selector_ok (v # vs)) = take (Suc n) (v # vs)"
      by (cases "add_ids selector_ok vs") simp
    then show ?thesis by blast
  next
    case False
    then have "fst (add_ids selector_ok (v # vs)) = take (Suc 0) (v # vs)" by simp
    then show ?thesis by blast
  qed
qed

lemma load_tasks_saved:
  "\<exists>n. (case load_tasks selector_ok (Some (stringify_ids ids)) of Normal a \<Rightarrow> a | Throw a \<Rightarrow> a) =
        take n (map (\<lambda>i. JString (units i)) ids)"
proof -
  obtain n where "fst (add_ids selector_ok (map (\<lambda>i. JString (units i)) ids)) =
                  take n (map (\<lambda>i. JString (units i)) ids)"
    using add_ids_prefix by blast
  then have "(case load_tasks selector_ok (Some (stringify_ids ids))
              of Normal a \<Rightarrow> a | Throw a \<Rightarrow> a) = take n (map (\<lambda>i. JString (units i)) ids)"
    by (cases "add_ids selector_ok (map (\<lambda>i. JString (units i)) ids)")
       (simp add: load_tasks_def stringify_nonempty JSON_parse_ids)
  then show ?thesis by blast
qed

lemma ids_of_json_take:
  "ids_of_json (take n (map (\<lambda>i. JString (units i)) ids)) = Some (take n ids)"
  using ids_of_json_ids [of "take n ids"] by (simp add: take_map)

text \<open>
  Claim C9. The text that \<^const>\<open>savePlan\<close> writes for the plan parses to the plan's own
  JSON value, which reads back as the plan; so a load from the storage that
  \<^const>\<open>savePlan\<close> left ends with \<^verbatim>\<open>this.projectPlan\<close> equal to the saved plan, the same
  records in the same order, and the loaded state is a SelectionState with that plan.
\<close>

theorem persisted_plan_round_trip:
  "JSON_parse (stringify_plan (projectPlan this)) =
     Parsed (JArray (map json_of_task (projectPlan this))) \<and>
   plan_of_json (JArray (map json_of_task (projectPlan this))) = Some (projectPlan this) \<and>
   loaded_plan (loadSavedPlan selector_ok (savePlan this localStorage) fresh) =
     JArray (map json_of_task (projectPlan this)) \<and>
   map_option projectPlan
     (restored fresh (loadSavedPlan selector_ok (savePlan this localStorage) fresh)) =
     Some (projectPlan this)"
proof -
  let ?l = "loadSavedPlan selector_ok (savePlan this localStorage) fresh"
  have p: "loaded_plan ?l = JArray (map json_of_task (projectPlan this))"
    by (simp add: loaded_plan_eq savePlan_get load_plan_saved)
  obtain n where "added ?l = take n (map (\<lambda>i. JString (units i)) (selectedTasks this))"
    using load_tasks_saved [of selector_ok "selectedTasks this"]
    by (auto simp: added_eq savePlan_get load_plan_saved)
  then have "ids_of_json (added ?l) = Some (take n (selectedTasks this))"
    by (simp add: ids_of_json_take)
  with p have "map_option projectPlan (restored fresh ?l) = Some (projectPlan this)"
    by (simp add: restored_def plan_of_json_plan)
  with p show ?thesis by (simp add: JSON_parse_plan plan_of_json_plan)
qed

theorem persisted_plan_round_trip_witness:
  "map_option projectPlan
     (restored new_planner (loadSavedPlan accepts_all
        (savePlan \<lparr>selectedTasks = [''a'', ''b''],
                   projectPlan = [task_card ''a'' ''2-4 days'' ''research'',
                                  task_card ''b'' [CHR 0x22, CHR 0x5C, CHR 0x0A] ''x'']\<rparr>
           Map.empty) new_planner)) =
   Some [task_card ''a'' ''2-4 days'' ''research'',
         task_card ''b'' [CHR 0x22, CHR 0x5C, CHR 0x0A] ''x'']"
  using persisted_plan_round_trip
    [of "\<lparr>selectedTasks = [''a'', ''b''],
          projectPlan = [task_card ''a'' ''2-4 days'' ''research'',
                         task_card ''b'' [CHR 0x22, CHR 0x5C, CHR 0x0A] ''x'']\<rparr>"
        accepts_all Map.empty new_planner]
  by simp

text \<open>
  Claim C8, as the program has it. The load returns in every case, and each persisted
  value is read on its own. A value that is absent or the empty text leaves its part of
  the state as the constructor made it. A plan text that does not parse ends the load in
  the empty state, with the error logged; an id text that does not parse leaves the
  selected ids empty, with the error logged. So the load ends in the empty state when both
  values are absent, or when the plan text does not parse; a plan text that parses is
  restored, whatever it parses to and whatever the id text is.
\<close>

theorem loadSavedPlan_fallbacks:
  "(localStorage ''uxProjectPlan'' \<in> {None, Some []} \<and>
    localStorage ''uxSelectedTasks'' \<in> {None, Some []} \<longrightarrow>
      loadSavedPlan selector_ok localStorage new_planner =
        \<lparr>loaded_plan = JArray [], added = [], logged = False\<rparr>) \<and>
   (localStorage ''uxProjectPlan'' = Some saved \<and> saved \<noteq> [] \<and> JSON_parse saved = SyntaxError \<longrightarrow>
      loadSavedPlan selector_ok localStorage new_planner =
        \<lparr>loaded_plan = JArray [], added = [], logged = True\<rparr>) \<and>
   (localStorage ''uxProjectPlan'' \<in> {None, Some []} \<longrightarrow>
      loaded_plan (loadSavedPlan selector_ok localStorage new_planner) = JArray []) \<and>
   (localStorage ''uxSelectedTasks'' \<in> {None, Some []} \<or>
    (localStorage ''uxSelectedTasks'' = Some saved \<and> JSON_parse saved = SyntaxError) \<longrightarrow>
      added (loadSavedPlan selector_ok localStorage new_planner) = []) \<and>
   (localStorage ''uxSelectedTasks'' = Some saved \<and> saved \<noteq> [] \<and> JSON_parse saved = SyntaxError \<longrightarrow>
      logged (loadSavedPlan selector_ok localStorage new_planner)) \<and>
   (localStorage ''uxProjectPlan'' = Some saved \<and> saved \<noteq> [] \<and> JSON_parse saved = Parsed j \<longrightarrow>
      loaded_plan (loadSavedPlan selector_ok localStorage new_planner) = j) \<and>
   restored new_planner \<lparr>loaded_plan = JArray [], added = [], logged = b\<rparr> = Some new_planner"
proof -
  let ?load = "loadSavedPlan selector_ok localStorage new_planner"
  let ?P = "localStorage ''uxProjectPlan''"
  let ?T = "localStorage ''uxSelectedTasks''"
  have e0: "JArray (map json_of_task (projectPlan new_planner)) = JArray []"
    by (simp add: new_planner_def)
  have a: "?P \<in> {None, Some []} \<and> ?T \<in> {None, Some []} \<longrightarrow>
           ?load = \<lparr>loaded_plan = JArray [], added = [], logged = False\<rparr>"
    by (auto simp: loadSavedPlan_def load_plan_def load_tasks_def new_planner_def)
  have b: "?P = Some saved \<and> saved \<noteq> [] \<and> JSON_parse saved = SyntaxError \<longrightarrow>
           ?load = \<lparr>loaded_plan = JArray [], added = [], logged = True\<rparr>"
    by (simp add: loadSavedPlan_def load_plan_syntax e0)
  have c: "?P \<in> {None, Some []} \<longrightarrow> loaded_plan ?load = JArray []"
    by (auto simp: loaded_plan_eq load_plan_def new_planner_def)
  have d: "?T \<in> {None, Some []} \<or> (?T = Some saved \<and> JSON_parse saved = SyntaxError) \<longrightarrow>
           added ?load = []"
    by (auto simp: added_eq load_tasks_def split: completion.splits)
  have e: "?T = Some saved \<and> saved \<noteq> [] \<and> JSON_parse saved = SyntaxError \<longrightarrow> logged ?load"
    by (auto simp: loadSavedPlan_def load_tasks_syntax split: completion.splits)
  have f: "?P = Some saved \<and> saved \<noteq> [] \<and> JSON_parse saved = Parsed j \<longrightarrow>
           loaded_plan ?load = j"
    by (simp add: loaded_plan_eq load_plan_parsed)
  have g: "restored new_planner \<lparr>loaded_plan = JArray [], added = [], logged = b\<rparr> =
           Some new_planner"
    by (simp add: restored_def plan_of_json_def ids_of_json_def new_planner_def)
  from a b c d e f g show ?thesis by blast
qed

theorem loadSavedPlan_fallbacks_witness:
  "loadSavedPlan accepts_all Map.empty new_planner =
     \<lparr>loaded_plan = JArray [], added = [], logged = False\<rparr> \<and>
   loadSavedPlan accepts_all (Map.empty(''uxProjectPlan'' \<mapsto> ''{oops'')) new_planner =
     \<lparr>loaded_plan = JArray [], added = [], logged = True\<rparr> \<and>
   logged (loadSavedPlan accepts_all
     (Map.empty(''uxProjectPlan'' \<mapsto> ''[]'', ''uxSelectedTasks'' \<mapsto> ''{oops'')) new_planner) \<and>
   loaded_plan (loadSavedPlan accepts_all (Map.empty(''uxProjectPlan'' \<mapsto> ''null''))
     new_planner) = JNull"
proof -
  have s: "JSON_parse ''{oops'' = SyntaxError" by code_simp
  have p: "JSON_parse ''null'' = Parsed JNull" by code_simp
  from loadSavedPlan_fallbacks [where localStorage = Map.empty and selector_ok = accepts_all]
  have 1: "loadSavedPlan accepts_all Map.empty new_planner =
     \<lparr>loaded_plan = JArray [], added = [], logged = False\<rparr>"
    by simp
  from loadSavedPlan_fallbacks
    [where localStorage = "Map.empty(''uxProjectPlan'' \<mapsto> ''{oops'')"
       and selector_ok = accepts_all and saved = "''{oops''"] s
  have 2: "loadSavedPlan accepts_all (Map.empty(''uxProjectPlan'' \<mapsto> ''{oops'')) new_planner =
     \<lparr>loaded_plan = JArray [], added = [], logged = True\<rparr>"
    by simp
  from loadSavedPlan_fallbacks
    [where localStorage = "Map.empty(''uxProjectPlan'' \<mapsto> ''[]'', ''uxSelectedTasks'' \<mapsto> ''{oops'')"
       and selector_ok = accepts_all and saved = "''{oops''"] s
  have 3: "logged (loadSavedPlan accepts_all
     (Map.empty(''uxProjectPlan'' \<mapsto> ''[]'', ''uxSelectedTasks'' \<mapsto> ''{oops'')) new_planner)"
    by simp
  from loadSavedPlan_fallbacks
    [where localStorage = "Map.empty(''uxProjectPlan'' \<mapsto> ''null'')"
       and selector_ok = accepts_all and saved = "''null''" and j = JNull] p
  have 4: "loaded_plan (loadSavedPlan accepts_all (Map.empty(''uxProjectPlan'' \<mapsto> ''null''))
     new_planner) = JNull"
    by simp
  from 1 2 3 4 show ?thesis by blast
qed

text \<open>
  Claim C8 as stated fails when only one value is absent or corrupt. With no plan text
  and the id text \<^verbatim>\<open>["a"]\<close>, the load ends with \<open>a\<close> selected; with a plan text that
  parses and the id text \<^verbatim>\<open>oops\<close>, the load logs the error and keeps the plan it has
  already restored. Neither is the empty state.
\<close>

theorem loadSavedPlan_partial_counterexample:
  "restored new_planner (loadSavedPlan accepts_all
     (map_of [(''uxSelectedTasks'', [CHR ''['', CHR 0x22, CHR ''a'', CHR 0x22, CHR '']''])])
     new_planner) = Some \<lparr>selectedTasks = [''a''], projectPlan = []\<rparr> \<and>
   loadSavedPlan accepts_all
     (map_of [(''uxProjectPlan'', stringify_plan [task_card ''a'' ''1 day'' ''x'']),
              (''uxSelectedTasks'', ''oops'')])
     new_planner =
       \<lparr>loaded_plan = JArray [json_of_task (task_card ''a'' ''1 day'' ''x'')], added = [],
        logged = True\<rparr> \<and>
   restored new_planner
       \<lparr>loaded_plan = JArray [json_of_task (task_card ''a'' ''1 day'' ''x'')], added = [],
        logged = True\<rparr> =
     Some \<lparr>selectedTasks = [], projectPlan = [task_card ''a'' ''1 day'' ''x'']\<rparr> \<and>
   \<lparr>selectedTasks = [''a''], projectPlan = []\<rparr> \<noteq> new_planner \<and>
   \<lparr>selectedTasks = [], projectPlan = [task_card ''a'' ''1 day'' ''x'']\<rparr> \<noteq> new_planner"
proof -
  have 1: "restored new_planner (loadSavedPlan accepts_all
     (map_of [(''uxSelectedTasks'', [CHR ''['', CHR 0x22, CHR ''a'', CHR 0x22, CHR '']''])])
     new_planner) = Some \<lparr>selectedTasks = [''a''], projectPlan = []\<rparr>"
    by code_simp
  have s: "JSON_parse ''oops'' = SyntaxError" by code_simp
  have 2: "loadSavedPlan accepts_all
     (map_of [(''uxProjectPlan'', stringify_plan [task_card ''a'' ''1 day'' ''x'']),
              (''uxSelectedTasks'', ''oops'')])
     new_planner =
       \<lparr>loaded_plan = JArray [json_of_task (task_card ''a'' ''1 day'' ''x'')], added = [],
        logged = True\<rparr>"
    by (simp add: loadSavedPlan_def load_plan_saved load_tasks_syntax s)
  have 3: "restored new_planner
       \<lparr>loaded_plan = JArray [json_of_task (task_card ''a'' ''1 day'' ''x'')], added = [],
        logged = True\<rparr> =
     Some \<lparr>selectedTasks = [], projectPlan = [task_card ''a'' ''1 day'' ''x'']\<rparr>"
    using plan_of_json_plan [of "[task_card ''a'' ''1 day'' ''x'']"]
    by (simp add: restored_def ids_of_json_def new_planner_def)
  have 4: "\<lparr>selectedTasks = [''a''], projectPlan = []\<rparr> \<noteq> new_planner"
    "\<lparr>selectedTasks = [], projectPlan = [task_card ''a'' ''1 day'' ''x'']\<rparr> \<noteq> new_planner"
    by (simp_all add: new_planner_def)
  from 1 2 3 4 show ?thesis by blast
qed

end
